theory Spec2Isabelle
  imports
    Main
    "HOL-Library.Word"
    "HOL-Library.AList"
    "HOL-Library.Char_ord"
    "HOL-Library.List_Lexorder"
begin

unbundle bit_operations_syntax

section \<open>Values shared by the packages\<close>

text \<open>
  The tracking service is written in Go. Strings are byte strings (\<open>string\<close>), Go's
  \<open>int\<close> is the 64-bit signed integer of the build target and is modelled as \<open>int\<close>
  with the wrap-around written out where the code multiplies (\<open>wrap64\<close>), a
  \<open>float64\<close> is its IEEE-754 bit pattern, and a \<open>primitive.ObjectID\<close> is its twelve
  bytes.
\<close>

type_synonym byte = "8 word"
type_synonym float64 = "64 word"
type_synonym ObjectID = "byte list"

text \<open>
  Every Go \<open>error\<close> value the modelled code creates or passes on. \<open>ErrSyntax\<close> and
  \<open>ErrRange\<close> are \<open>strconv.NumError\<close> with the function name and the offending text;
  \<open>ErrUnsupportedFloat\<close>, \<open>ErrUnmarshalType\<close> (with the name of the Go field) and
  \<open>ErrJSONSyntax\<close> come from the JSON package; \<open>ErrInvalidHex\<close> from the ObjectID
  parser, \<open>ErrHexInvalidByte\<close> and \<open>ErrHexLength\<close> from encoding/hex below it;
  \<open>ErrInvalidID\<close> is declared in package repositories, \<open>ErrMethodNotAllowed\<close> and
  \<open>ErrNotFound\<close> in package handler;
  \<open>ErrExternal\<close> stands for an error made by a collaborator whose source is elsewhere
  (the models package, the database driver, the broker).
\<close>

datatype error =
    ErrSyntax string string
  | ErrRange string string
  | ErrUnsupportedFloat
  | ErrUnmarshalType string
  | ErrJSONSyntax
  | ErrInvalidHex
  | ErrHexInvalidByte char
  | ErrHexLength
  | ErrInvalidID
  | ErrMethodNotAllowed
  | ErrNotFound
  | ErrExternal string

definition wrap64 :: "int \<Rightarrow> int" where
  "wrap64 x = (x + 2 ^ 63) mod 2 ^ 64 - 2 ^ 63"

text \<open>\<open>x != 0\<close> on a \<open>float64\<close>: both zeros compare equal to 0, a NaN does not.\<close>

definition float64_is_zero :: "float64 \<Rightarrow> bool" where
  "float64_is_zero x = (x AND 0x7FFFFFFFFFFFFFFF = 0)"

text \<open>\<open>math.IsNaN(x) || math.IsInf(x, 0)\<close>: the exponent field is all ones.\<close>

definition float64_is_finite :: "float64 \<Rightarrow> bool" where
  "float64_is_finite x = (drop_bit 52 x AND 0x7FF \<noteq> 0x7FF)"

section \<open>strconv.Atoi\<close>

text \<open>
  \<open>strconv.Atoi\<close> of the Go standard library, base 10 and 64 bits: an optional sign,
  then one or more decimal digits and nothing else. The digits are read from the left;
  the first byte that is not a digit is a syntax error, and a value that leaves the
  unsigned 64-bit range while reading, or the signed range at the end, is a range
  error.
\<close>

definition is_digit :: "char \<Rightarrow> bool" where
  "is_digit c = (48 \<le> (of_char c :: nat) \<and> (of_char c :: nat) \<le> 57)"

definition digit_val :: "char \<Rightarrow> nat" where
  "digit_val c = of_char c - 48"

fun parse_digits :: "string \<Rightarrow> nat \<Rightarrow> string \<Rightarrow> error + nat" where
  "parse_digits s0 n [] = Inr n"
| "parse_digits s0 n (c # cs) =
     (if \<not> is_digit c then Inl (ErrSyntax ''Atoi'' s0)
      else if 2 ^ 64 \<le> n * 10 + digit_val c then Inl (ErrRange ''Atoi'' s0)
      else parse_digits s0 (n * 10 + digit_val c) cs)"

definition Atoi :: "string \<Rightarrow> error + int" where
  "Atoi s =
     (case s of
        [] \<Rightarrow> Inl (ErrSyntax ''Atoi'' s)
      | c # cs \<Rightarrow>
          (let neg = (c = CHR ''-'');
               ds = (if c = CHR ''-'' \<or> c = CHR ''+'' then cs else s)
           in if ds = [] then Inl (ErrSyntax ''Atoi'' s)
              else (case parse_digits s 0 ds of
                      Inl e \<Rightarrow> Inl e
                    | Inr un \<Rightarrow>
                        if \<not> neg \<and> 2 ^ 63 \<le> un then Inl (ErrRange ''Atoi'' s)
                        else if neg \<and> 2 ^ 63 < un then Inl (ErrRange ''Atoi'' s)
                        else Inr (if neg then - int un else int un))))"

section \<open>primitive.ObjectIDFromHex\<close>

text \<open>
  The driver's parser: the text must be exactly 24 bytes long (\<open>ErrInvalidHex\<close>
  otherwise) and every byte a hexadecimal digit of either case; two digits make one
  byte of the identifier. \<open>hex.Decode\<close> reads the pairs from the left and its error
  for the first byte that is no digit is passed on.
\<close>

definition hex_val :: "char \<Rightarrow> nat option" where
  "hex_val c =
     (let n = (of_char c :: nat)
      in if 48 \<le> n \<and> n \<le> 57 then Some (n - 48)
         else if 97 \<le> n \<and> n \<le> 102 then Some (n - 87)
         else if 65 \<le> n \<and> n \<le> 70 then Some (n - 55)
         else None)"

fun hex_Decode :: "string \<Rightarrow> error + byte list" where
  "hex_Decode [] = Inr []"
| "hex_Decode [c] = (if hex_val c = None then Inl (ErrHexInvalidByte c) else Inl ErrHexLength)"
| "hex_Decode (a # b # cs) =
     (case hex_val a of
        None \<Rightarrow> Inl (ErrHexInvalidByte a)
      | Some h \<Rightarrow>
          (case hex_val b of
             None \<Rightarrow> Inl (ErrHexInvalidByte b)
           | Some l \<Rightarrow>
               (case hex_Decode cs of
                  Inl e \<Rightarrow> Inl e
                | Inr bs \<Rightarrow> Inr (of_nat (h * 16 + l) # bs))))"

definition ObjectIDFromHex :: "string \<Rightarrow> error + ObjectID" where
  "ObjectIDFromHex s = (if length s \<noteq> 24 then Inl ErrInvalidHex else hex_Decode s)"

definition NilObjectID :: ObjectID where
  "NilObjectID = replicate 12 0"

section \<open>Collaborators outside the repository\<close>

text \<open>
  \<open>strconv.ParseFloat\<close> and the \<open>Valid\<close> methods of \<open>models.VehicleStatus\<close> and
  \<open>models.FuelCondition\<close> are called by the code below, and their sources are not part
  of the repository. They are parameters of the model: every theorem holds for whatever
  they compute.
\<close>

record extern =
  ParseFloat :: "string \<Rightarrow> error + float64"
  VehicleStatus_Valid :: "string \<Rightarrow> error option"
  FuelCondition_Valid :: "string \<Rightarrow> error option"

section \<open>Package repositories: the filter\<close>

record TrackingFilter =
  Page :: int
  PageSize :: int
  SortField :: string
  SortOrder :: string
  VehicleID :: string
  Location :: string
  Mileage :: float64
  Status :: string
  FuelCondition :: string
  vehicleID :: ObjectID

text \<open>The zero value of the struct, as \<open>var filter repositories.TrackingFilter\<close> gives it.\<close>

definition zero_filter :: TrackingFilter where
  "zero_filter =
     \<lparr>Page = 0, PageSize = 0, SortField = [], SortOrder = [], VehicleID = [],
      Location = [], Mileage = 0, Status = [], FuelCondition = [],
      vehicleID = NilObjectID\<rparr>"

definition VehicleObjID :: "TrackingFilter \<Rightarrow> ObjectID" where
  "VehicleObjID t = vehicleID t"

text \<open>
  \<open>TrackingFilter.Build\<close> updates the filter in place and returns an error or nil; the
  model returns the updated filter on nil.
\<close>

definition Build_defaults :: "TrackingFilter \<Rightarrow> TrackingFilter" where
  "Build_defaults t0 =
     (let t1 = (if Page t0 = 0 then t0\<lparr>Page := 1\<rparr> else t0);
          t2 = (if PageSize t1 = 0 then t1\<lparr>PageSize := 10\<rparr> else t1);
          t3 = (if PageSize t2 > 100 then t2\<lparr>PageSize := 100\<rparr> else t2);
          t4 = (if SortField t3 = [] then t3\<lparr>SortField := ''created_at''\<rparr> else t3)
      in (if SortOrder t4 = [] then t4\<lparr>SortOrder := ''asc''\<rparr> else t4))"

definition Build :: "extern \<Rightarrow> TrackingFilter \<Rightarrow> error + TrackingFilter" where
  "Build E t0 =
     (let t5 = Build_defaults t0
      in case (if VehicleID t5 \<noteq> []
               then (case ObjectIDFromHex (VehicleID t5) of
                       Inl e \<Rightarrow> Inl ErrInvalidID
                     | Inr oid \<Rightarrow> Inr (t5\<lparr>vehicleID := oid\<rparr>))
               else Inr t5) of
           Inl e \<Rightarrow> Inl e
         | Inr t6 \<Rightarrow>
             (case (if Status t6 \<noteq> [] then VehicleStatus_Valid E (Status t6) else None) of
                Some e \<Rightarrow> Inl e
              | None \<Rightarrow>
                  (case (if FuelCondition t6 \<noteq> []
                         then FuelCondition_Valid E (FuelCondition t6) else None) of
                     Some e \<Rightarrow> Inl e
                   | None \<Rightarrow> Inr t6)))"

section \<open>Package services: from query parameters to a filter\<close>

text \<open>
  \<open>url.Values\<close> is a Go map from a key to the list of its values. A \<open>query\<close> lists the
  entries of that map in the order in which the \<open>range\<close> loop visits them, which the
  runtime chooses afresh on every run; a statement for every list is a statement for
  every order. The keys of a map are pairwise distinct.
\<close>

type_synonym query = "(string \<times> string list) list"

text \<open>The values stored in \<open>data := map[string]any{}\<close>.\<close>

datatype jvalue = JInt int | JFloat float64 | JString string

type_synonym data = "(string \<times> jvalue) list"

text \<open>
  The loop of \<open>MongoTrackingService.FindTrackingData\<close>. \<open>value[0]\<close> on an empty list
  of values is a run-time panic (\<open>None\<close>); \<open>data[key] = x\<close> is \<open>AList.update\<close>.
\<close>

fun build_data :: "extern \<Rightarrow> query \<Rightarrow> data \<Rightarrow> (error + data) option" where
  "build_data E [] data = Some (Inr data)"
| "build_data E ((key, value) # rest) data =
     (case value of
        [] \<Rightarrow> None
      | v0 # _ \<Rightarrow>
          if key = ''page'' \<or> key = ''limit'' then
            (case Atoi v0 of
               Inl e \<Rightarrow> Some (Inl e)
             | Inr converted \<Rightarrow> build_data E rest (AList.update key (JInt converted) data))
          else if key = ''mileage'' then
            (case ParseFloat E v0 of
               Inl e \<Rightarrow> Some (Inl e)
             | Inr converted \<Rightarrow> build_data E rest (AList.update key (JFloat converted) data))
          else build_data E rest (AList.update key (JString v0) data))"

text \<open>
  \<open>json.Marshal(data)\<close> followed by \<open>json.Unmarshal(buf, &filter)\<close> (package
  goccy/go-json, which follows encoding/json). The JSON text between the two calls is
  modelled by the members of the object it denotes, in the order in which they are
  written:
  \<^item> marshalling fails on a \<open>float64\<close> that is a NaN or an infinity, and writes the
    members of a map sorted by key (bytewise);
  \<^item> unmarshalling into a struct reads the members in order; a member is stored in the
    field whose \<open>json\<close> tag equals its key up to the case of ASCII letters, a later
    member overwriting an earlier one, and a member whose key matches no tag is skipped;
  \<^item> a JSON string read into an \<open>int\<close> field, or a JSON number read into a \<open>string\<close>
    field, is a type error that names the Go field; a JSON string read into the
    \<open>float64\<close> field is a syntax error.
  An integer, a finite float and a string (taken to be valid UTF-8) are read back as
  they were written. \<open>build_data\<close> stores an integer only under \<open>page\<close> and \<open>limit\<close>
  and a float only under \<open>mileage\<close> (lemma \<open>build_data_kinds\<close>), so a number never
  meets a field of another numeric type; \<open>decode_field\<close> answers that unreachable case
  with an error.
\<close>

definition jvalue_finite :: "jvalue \<Rightarrow> bool" where
  "jvalue_finite v = (case v of JFloat x \<Rightarrow> float64_is_finite x | _ \<Rightarrow> True)"

definition json_Marshal :: "data \<Rightarrow> error + data" where
  "json_Marshal data =
     (if list_all (\<lambda>kv. jvalue_finite (snd kv)) data then Inr (sort_key fst data)
      else Inl ErrUnsupportedFloat)"

definition ascii_lower :: "char \<Rightarrow> char" where
  "ascii_lower c =
     (if 65 \<le> (of_char c :: nat) \<and> (of_char c :: nat) \<le> 90
      then char_of ((of_char c :: nat) + 32) else c)"

definition decode_field :: "string \<times> jvalue \<Rightarrow> TrackingFilter \<Rightarrow> error + TrackingFilter" where
  "decode_field kv f =
     (let tag = map ascii_lower (fst kv); v = snd kv
      in if tag = ''page'' then
           (case v of JInt n \<Rightarrow> Inr (f\<lparr>Page := n\<rparr>) | _ \<Rightarrow> Inl (ErrUnmarshalType ''Page''))
         else if tag = ''limit'' then
           (case v of JInt n \<Rightarrow> Inr (f\<lparr>PageSize := n\<rparr>) | _ \<Rightarrow> Inl (ErrUnmarshalType ''PageSize''))
         else if tag = ''sort_by'' then
           (case v of JString s \<Rightarrow> Inr (f\<lparr>SortField := s\<rparr>) | _ \<Rightarrow> Inl (ErrUnmarshalType ''SortField''))
         else if tag = ''sort_order'' then
           (case v of JString s \<Rightarrow> Inr (f\<lparr>SortOrder := s\<rparr>) | _ \<Rightarrow> Inl (ErrUnmarshalType ''SortOrder''))
         else if tag = ''vehicle_id'' then
           (case v of JString s \<Rightarrow> Inr (f\<lparr>VehicleID := s\<rparr>) | _ \<Rightarrow> Inl (ErrUnmarshalType ''VehicleID''))
         else if tag = ''location'' then
           (case v of JString s \<Rightarrow> Inr (f\<lparr>Location := s\<rparr>) | _ \<Rightarrow> Inl (ErrUnmarshalType ''Location''))
         else if tag = ''mileage'' then
           (case v of
              JFloat x \<Rightarrow> Inr (f\<lparr>Mileage := x\<rparr>)
            | JString s \<Rightarrow> Inl ErrJSONSyntax
            | JInt n \<Rightarrow> Inl (ErrUnmarshalType ''Mileage''))
         else if tag = ''status'' then
           (case v of JString s \<Rightarrow> Inr (f\<lparr>Status := s\<rparr>) | _ \<Rightarrow> Inl (ErrUnmarshalType ''Status''))
         else if tag = ''fuel_condition'' then
           (case v of JString s \<Rightarrow> Inr (f\<lparr>FuelCondition := s\<rparr>) | _ \<Rightarrow> Inl (ErrUnmarshalType ''FuelCondition''))
         else Inr f)"

fun decode_fields :: "data \<Rightarrow> TrackingFilter \<Rightarrow> error + TrackingFilter" where
  "decode_fields [] f = Inr f"
| "decode_fields (kv # rest) f =
     (case decode_field kv f of Inl e \<Rightarrow> Inl e | Inr f' \<Rightarrow> decode_fields rest f')"

definition json_Unmarshal :: "data \<Rightarrow> error + TrackingFilter" where
  "json_Unmarshal buf = decode_fields buf zero_filter"

text \<open>
  Lines 48 to 77 of \<open>MongoTrackingService.FindTrackingData\<close>: the filter handed to the
  repository, an error, or a panic.
\<close>

definition decode_query :: "extern \<Rightarrow> query \<Rightarrow> (error + TrackingFilter) option" where
  "decode_query E q =
     (case build_data E q [] of
        None \<Rightarrow> None
      | Some (Inl e) \<Rightarrow> Some (Inl e)
      | Some (Inr data) \<Rightarrow>
          (case json_Marshal data of
             Inl e \<Rightarrow> Some (Inl e)
           | Inr buf \<Rightarrow> Some (json_Unmarshal buf)))"

text \<open>
  The service holds the repository behind the interface \<open>TrackingRepository\<close>; its
  \<open>FindTrackingData\<close> is the parameter \<open>repoFind\<close>, which threads the database \<open>'db\<close>.
\<close>

definition MongoTrackingService_FindTrackingData ::
  "extern \<Rightarrow> (TrackingFilter option \<Rightarrow> 'db \<Rightarrow> (error + 'td list) \<times> 'db) \<Rightarrow>
   query \<Rightarrow> 'db \<Rightarrow> ((error + 'td list) \<times> 'db) option" where
  "MongoTrackingService_FindTrackingData E repoFind q db =
     (case decode_query E q of
        None \<Rightarrow> None
      | Some (Inl e) \<Rightarrow> Some (Inl e, db)
      | Some (Inr flt) \<Rightarrow> Some (repoFind (Some flt) db))"

section \<open>Package repositories: the query\<close>

text \<open>
  The values put into \<open>bson.M\<close> and the three options set on \<open>options.Find()\<close>;
  \<open>BDoc\<close> is a nested \<open>bson.M\<close> literal with its members as written.
\<close>

datatype bval = BObjectID ObjectID | BString string | BDouble float64 | BDoc "(string \<times> bval) list"

record FindOptions =
  Sort :: "(string \<times> int) list option"
  Skip :: "int option"
  Limit :: "int option"

definition options_Find :: FindOptions where
  "options_Find = \<lparr>Sort = None, Skip = None, Limit = None\<rparr>"

text \<open>
  Lines 106 to 137 of \<open>MongoTackingRepository.FindTrackingData\<close>: the predicate and the
  options passed to \<open>collection.Find\<close>, or the error of \<open>Build\<close>. A nil filter is \<open>None\<close>.
\<close>

definition find_query ::
  "extern \<Rightarrow> TrackingFilter option \<Rightarrow> error + ((string \<rightharpoonup> bval) \<times> FindOptions)" where
  "find_query E flt =
     (case flt of
        None \<Rightarrow> Inr (Map.empty, options_Find)
      | Some f0 \<Rightarrow>
          (case Build E f0 of
             Inl e \<Rightarrow> Inl e
           | Inr f \<Rightarrow>
               (let m0 = Map.empty;
                    m1 = (if VehicleID f \<noteq> []
                          then m0(''vehicle_id'' \<mapsto> BObjectID (VehicleObjID f)) else m0);
                    m2 = (if Location f \<noteq> []
                          then m1(''location'' \<mapsto>
                                 BDoc [(''$regex'', BString (''^'' @ Location f)),
                                       (''$options'', BString ''i'')])
                          else m1);
                    m3 = (if \<not> float64_is_zero (Mileage f)
                          then m2(''mileage'' \<mapsto> BDoc [(''$gte'', BDouble (Mileage f))])
                          else m2);
                    m4 = (if Status f \<noteq> [] then m3(''status'' \<mapsto> BString (Status f)) else m3);
                    m5 = (if FuelCondition f \<noteq> []
                          then m4(''fuel_condition'' \<mapsto> BString (FuelCondition f)) else m4);
                    o1 = (if SortField f \<noteq> []
                          then options_Find\<lparr>Sort :=
                                 Some [(SortField f, if SortOrder f = ''desc'' then - 1 else 1)]\<rparr>
                          else options_Find);
                    o2 = o1\<lparr>Skip := Some (wrap64 ((Page f - 1) * PageSize f))\<rparr>;
                    o3 = o2\<lparr>Limit := Some (PageSize f)\<rparr>
                in Inr (m5, o3))))"

text \<open>
  \<open>collection_Find\<close> stands for the driver: \<open>collection.Find\<close> and the cursor loop that
  decodes the documents, any error of either returned as it is.
\<close>

definition MongoTackingRepository_FindTrackingData ::
  "extern \<Rightarrow> ((string \<rightharpoonup> bval) \<Rightarrow> FindOptions \<Rightarrow> 'db \<Rightarrow> (error + 'td list) \<times> 'db) \<Rightarrow>
   TrackingFilter option \<Rightarrow> 'db \<Rightarrow> (error + 'td list) \<times> 'db" where
  "MongoTackingRepository_FindTrackingData E collection_Find flt db =
     (case find_query E flt of
        Inl e \<Rightarrow> (Inl e, db)
      | Inr (m, opts) \<Rightarrow> collection_Find m opts db)"

text \<open>
  The filter as the repository resolves it for a query: \<open>decode_query\<close> in the service,
  then \<open>Build\<close> at the head of the repository's \<open>FindTrackingData\<close>.
\<close>

definition resolved_filter :: "extern \<Rightarrow> query \<Rightarrow> (error + TrackingFilter) option" where
  "resolved_filter E q =
     (case decode_query E q of
        None \<Rightarrow> None
      | Some (Inl e) \<Rightarrow> Some (Inl e)
      | Some (Inr flt) \<Rightarrow> Some (Build E flt))"

section \<open>Package repositories and services: writing an event\<close>

text \<open>
  \<open>MongoTackingRepository.CreateTrackingData\<close>. The record type \<open>'td\<close> and its \<open>Build\<close>
  method belong to the models package, \<open>InsertOne\<close> to the driver; \<open>set_ID\<close> is the
  assignment to the field \<open>ID\<close>. The record is updated in place, so the model returns
  it beside the error.
\<close>

definition MongoTackingRepository_CreateTrackingData ::
  "('td \<Rightarrow> error + 'td) \<Rightarrow> ('td \<Rightarrow> 'db \<Rightarrow> (error + ObjectID) \<times> 'db) \<Rightarrow>
   (ObjectID \<Rightarrow> 'td \<Rightarrow> 'td) \<Rightarrow> 'td \<Rightarrow> 'db \<Rightarrow> error option \<times> 'td \<times> 'db" where
  "MongoTackingRepository_CreateTrackingData td_Build InsertOne set_ID trackingData db =
     (case td_Build trackingData of
        Inl err \<Rightarrow> (Some err, trackingData, db)
      | Inr built \<Rightarrow>
          (case InsertOne built db of
             (Inl err, db') \<Rightarrow> (Some err, built, db')
           | (Inr InsertedID, db') \<Rightarrow> (None, set_ID InsertedID built, db')))"

text \<open>
  \<open>MongoTrackingService.TrackVehicle\<close>. \<open>Validate\<close> and \<open>ToTrackingData\<close> are methods of
  \<open>models.TrackingDataRequest\<close>; \<open>repoCreate\<close> is \<open>CreateTrackingData\<close> behind the
  interface \<open>TrackingRepository\<close>.
\<close>

definition MongoTrackingService_TrackVehicle ::
  "('req \<Rightarrow> error option) \<Rightarrow> ('req \<Rightarrow> error + 'td) \<Rightarrow>
   ('td \<Rightarrow> 'db \<Rightarrow> error option \<times> 'td \<times> 'db) \<Rightarrow> 'req \<Rightarrow> 'db \<Rightarrow> error option \<times> 'db" where
  "MongoTrackingService_TrackVehicle Validate ToTrackingData repoCreate req db =
     (case Validate req of
        Some err \<Rightarrow> (Some err, db)
      | None \<Rightarrow>
          (case ToTrackingData req of
             Inl err \<Rightarrow> (Some err, db)
           | Inr trackingData \<Rightarrow>
               (case repoCreate trackingData db of
                  (Some err, _, db') \<Rightarrow> (Some err, db')
                | (None, _, db') \<Rightarrow> (None, db'))))"

section \<open>Package handler: the query endpoint\<close>

record Request =
  Method :: string
  Query :: query

datatype 'td envelope = ErrorResponse error | SuccessResponse "'td list" string

record 'td Response =
  StatusCode :: nat
  Payload :: "'td envelope option"

definition MethodGet :: string where
  "MethodGet = ''GET''"

text \<open>
  Modelled from the spec: \<open>common.HandleError\<close> and \<open>common.DefaultSuccessResponse\<close> of
  the common package are not in the repository. The first answers with the status code
  it is given and renders the error; the second makes the success envelope of a data
  list and a message.
\<close>

definition HandleError :: "nat \<Rightarrow> error \<Rightarrow> 'td Response" where
  "HandleError status err = \<lparr>StatusCode = status, Payload = Some (ErrorResponse err)\<rparr>"

definition DefaultSuccessResponse :: "'td list \<Rightarrow> string \<Rightarrow> 'td envelope" where
  "DefaultSuccessResponse vehicles message = SuccessResponse vehicles message"

text \<open>
  \<open>V1TrackingHandler.FindTrackingData\<close>. \<open>svcFind\<close> is the service behind the interface
  \<open>TrackingService\<close>; a panic inside it leaves the handler without a response (\<open>None\<close>).
  \<open>Encode\<close> is \<open>json.NewEncoder(w).Encode\<close>: on success the envelope is the body of the
  response; the handler never sets a status on this path, so net/http answers 200; a
  failure is logged. The second component of the result is the log.
\<close>

definition V1TrackingHandler_FindTrackingData ::
  "(query \<Rightarrow> 'db \<Rightarrow> ((error + 'td list) \<times> 'db) option) \<Rightarrow> ('td envelope \<Rightarrow> error option) \<Rightarrow>
   Request \<Rightarrow> 'db \<Rightarrow> ('td Response \<times> error list \<times> 'db) option" where
  "V1TrackingHandler_FindTrackingData svcFind Encode r db =
     (if Method r \<noteq> MethodGet then Some (HandleError 405 ErrMethodNotAllowed, [], db)
      else
        (case svcFind (Query r) db of
           None \<Rightarrow> None
         | Some (Inl err, db') \<Rightarrow> Some (HandleError 400 err, [], db')
         | Some (Inr vehicles, db') \<Rightarrow>
             if length vehicles = 0 then Some (HandleError 404 ErrNotFound, [], db')
             else
               (case Encode (DefaultSuccessResponse vehicles
                               ''successfully fetched tracking data'') of
                  Some err \<Rightarrow> Some (\<lparr>StatusCode = 200, Payload = None\<rparr>, [err], db')
                | None \<Rightarrow>
                    Some (\<lparr>StatusCode = 200,
                           Payload = Some (DefaultSuccessResponse vehicles
                                             ''successfully fetched tracking data'')\<rparr>,
                          [], db'))))"

section \<open>Package app: the consumer\<close>

record Delivery =
  Body :: "byte list"

record Publishing =
  ContentType :: string
  PublishingBody :: "byte list"

record EnvConfig =
  VehicleQueue :: string

text \<open>
  Modelled from the spec: the constant \<open>common.ApplicationJSON\<close> of the common package is
  not in the repository; the spec gives the content type of a republished message.
\<close>

definition ApplicationJSON :: string where
  "ApplicationJSON = ''application/json''"

text \<open>
  What one delivery's goroutine does, in order: log lines, the calls \<open>msg.Nack(multiple,
  requeue)\<close> and \<open>msg.Ack(multiple)\<close>, and \<open>Go\<close> for a goroutine it starts, with what that
  one does. The answers of the broker to the three calls are given by \<open>Broker\<close>.
\<close>

datatype logline =
    FailedToUnmarshal error
  | ReceivedTrackingData
  | FailedToTrack error
  | FailedToNack error
  | FailedToPublish error
  | FailedToAck error

datatype effect =
    Log logline
  | Nack bool bool
  | Ack bool
  | PublishWithContext string string bool bool Publishing
  | Go "effect list"

record Broker =
  nack_result :: "error option"
  publish_result :: "error option"
  ack_result :: "error option"

definition nack_message :: "Broker \<Rightarrow> effect list" where
  "nack_message br =
     Nack False False # (case nack_result br of Some err \<Rightarrow> [Log (FailedToNack err)] | None \<Rightarrow> [])"

definition publish_task :: "EnvConfig \<Rightarrow> Broker \<Rightarrow> byte list \<Rightarrow> effect list" where
  "publish_task cfg br body =
     PublishWithContext [] (VehicleQueue cfg) False False
       \<lparr>ContentType = ApplicationJSON, PublishingBody = body\<rparr>
     # (case publish_result br of Some err \<Rightarrow> [Log (FailedToPublish err)] | None \<Rightarrow> [])"

text \<open>
  The body of the goroutine started for each delivery in \<open>App.Consume\<close>.
  \<open>Unmarshal\<close> is \<open>json.Unmarshal\<close> into a \<open>models.TrackingDataRequest\<close>;
  \<open>TrackVehicle\<close> is the service behind its interface, threading its state \<open>'st\<close>.
\<close>

definition handle_delivery ::
  "(byte list \<Rightarrow> error + 'req) \<Rightarrow> ('req \<Rightarrow> 'st \<Rightarrow> error option \<times> 'st) \<Rightarrow>
   EnvConfig \<Rightarrow> Broker \<Rightarrow> Delivery \<Rightarrow> 'st \<Rightarrow> effect list \<times> 'st" where
  "handle_delivery Unmarshal TrackVehicle cfg br msg st =
     (case Unmarshal (Body msg) of
        Inl err \<Rightarrow> (Log (FailedToUnmarshal err) # nack_message br, st)
      | Inr trackingData \<Rightarrow>
          (case TrackVehicle trackingData st of
             (Some err, st') \<Rightarrow>
               (Log ReceivedTrackingData # Log (FailedToTrack err) # nack_message br, st')
           | (None, st') \<Rightarrow>
               (Log ReceivedTrackingData # Go (publish_task cfg br (Body msg)) # Ack False
                  # (case ack_result br of Some err \<Rightarrow> [Log (FailedToAck err)] | None \<Rightarrow> []),
                st')))"

text \<open>
  The loop of \<open>App.Consume\<close> over the deliveries of the channel: one goroutine each. The
  goroutines run concurrently; the model runs them one after the other in the order of
  arrival, which is one of the possible schedules.
\<close>

fun Consume ::
  "(byte list \<Rightarrow> error + 'req) \<Rightarrow> ('req \<Rightarrow> 'st \<Rightarrow> error option \<times> 'st) \<Rightarrow>
   EnvConfig \<Rightarrow> (Delivery \<Rightarrow> Broker) \<Rightarrow> Delivery list \<Rightarrow> 'st \<Rightarrow> effect list \<times> 'st" where
  "Consume Unmarshal TrackVehicle cfg br [] st = ([], st)"
| "Consume Unmarshal TrackVehicle cfg br (msg # msgs) st =
     (case handle_delivery Unmarshal TrackVehicle cfg (br msg) msg st of
        (tr, st') \<Rightarrow>
          (case Consume Unmarshal TrackVehicle cfg br msgs st' of
             (trs, st'') \<Rightarrow> (Go tr # trs, st'')))"

text \<open>The acknowledgments among the effects of a goroutine, and every message published
  by it or by a goroutine it starts (routing key and message).\<close>

fun is_acknowledgment :: "effect \<Rightarrow> bool" where
  "is_acknowledgment (Ack m) = True"
| "is_acknowledgment (Nack m r) = True"
| "is_acknowledgment _ = False"

definition acknowledgments :: "effect list \<Rightarrow> effect list" where
  "acknowledgments tr = filter is_acknowledgment tr"

fun published :: "effect \<Rightarrow> (string \<times> Publishing) list" where
  "published (PublishWithContext exchange key mandatory immediate p) = [(key, p)]"
| "published (Go es) = concat (map published es)"
| "published _ = []"

definition republished :: "effect list \<Rightarrow> (string \<times> Publishing) list" where
  "republished tr = concat (map published tr)"

section \<open>A concrete environment\<close>

text \<open>
  Modelled from the spec: the enumerations of the models package, which are not in the
  repository. A status is one of active, inactive, repair, sold, rented, and a fuel
  condition one of empty, low, half, full; \<open>Valid\<close> rejects every other value.
  \<open>ParseFloat_excerpt\<close> is \<open>strconv.ParseFloat\<close> on three texts only and serves to run
  the model on them. The theorems below hold for every environment; this one runs
  them on concrete inputs.
\<close>

definition VehicleStatuses :: "string list" where
  "VehicleStatuses = [''active'', ''inactive'', ''repair'', ''sold'', ''rented'']"

definition FuelConditions :: "string list" where
  "FuelConditions = [''empty'', ''low'', ''half'', ''full'']"

definition enum_Valid :: "string list \<Rightarrow> string \<Rightarrow> error option" where
  "enum_Valid allowed s = (if s \<in> set allowed then None else Some (ErrExternal s))"

definition ParseFloat_excerpt :: "string \<Rightarrow> error + float64" where
  "ParseFloat_excerpt s =
     (if s = ''0'' then Inr 0
      else if s = ''12.5'' then Inr 0x4029000000000000
      else if s = ''NaN'' then Inr 0x7FF8000000000001
      else Inl (ErrSyntax ''ParseFloat'' s))"

definition spec_extern :: extern where
  "spec_extern =
     \<lparr>ParseFloat = ParseFloat_excerpt,
      VehicleStatus_Valid = enum_Valid VehicleStatuses,
      FuelCondition_Valid = enum_Valid FuelConditions\<rparr>"

text \<open>A collection that answers every query with all its documents, a decoder that
  rejects the empty body, and a service that stores every body of two bytes or more.\<close>

definition sample_collection_Find ::
  "(string \<rightharpoonup> bval) \<Rightarrow> FindOptions \<Rightarrow> nat list \<Rightarrow> (error + nat list) \<times> nat list" where
  "sample_collection_Find m opts db = (Inr db, db)"

definition sample_Unmarshal :: "byte list \<Rightarrow> error + byte list" where
  "sample_Unmarshal b = (if b = [] then Inl (ErrExternal ''unexpected end of JSON input'') else Inr b)"

definition sample_TrackVehicle ::
  "byte list \<Rightarrow> byte list list \<Rightarrow> error option \<times> byte list list" where
  "sample_TrackVehicle req st =
     (if length req < 2 then (Some (ErrExternal ''validation failed''), st) else (None, req # st))"

definition sample_Validate :: "int \<Rightarrow> error option" where
  "sample_Validate mileage =
     (if mileage < 0 then Some (ErrExternal ''mileage must not be negative'') else None)"

definition sample_repoCreate :: "int \<Rightarrow> int list \<Rightarrow> error option \<times> int \<times> int list" where
  "sample_repoCreate td db = (None, td, td # db)"

section \<open>Notions used in the proofs\<close>

text \<open>
  The keys the filter knows: the \<open>json\<close> tags of the fields of \<open>TrackingFilter\<close>. A key
  is recognized by the decoder when it is one of them up to the case of ASCII letters.
\<close>

definition filter_keys :: "string list" where
  "filter_keys = [''page'', ''limit'', ''sort_by'', ''sort_order'', ''vehicle_id'', ''location'',
                  ''mileage'', ''status'', ''fuel_condition'']"

definition recognized :: "string \<Rightarrow> bool" where
  "recognized k = (map ascii_lower k \<in> set filter_keys)"

text \<open>
  Two contents of \<open>data\<close> are related when they agree on the recognized keys and hold
  no NaN or infinity under any other key; \<open>json_roundtrip\<close> is \<open>json.Marshal\<close> followed
  by \<open>json.Unmarshal\<close>, as in \<open>decode_query\<close>.
\<close>

definition data_rel :: "data \<Rightarrow> data \<Rightarrow> bool" where
  "data_rel d1 d2 \<longleftrightarrow>
     filter (\<lambda>kv. recognized (fst kv)) d1 = filter (\<lambda>kv. recognized (fst kv)) d2
   \<and> list_all (\<lambda>kv. recognized (fst kv) \<or> jvalue_finite (snd kv)) d1
   \<and> list_all (\<lambda>kv. recognized (fst kv) \<or> jvalue_finite (snd kv)) d2"

definition json_roundtrip :: "data \<Rightarrow> error + TrackingFilter" where
  "json_roundtrip d = (case json_Marshal d of Inl e \<Rightarrow> Inl e | Inr buf \<Rightarrow> json_Unmarshal buf)"

text \<open>A filter as a caller of the repository may pass it.\<close>

definition sample_filter :: TrackingFilter where
  "sample_filter = zero_filter\<lparr>Page := 3, PageSize := 500, SortField := ''anything'',
     SortOrder := ''DESC'', Location := ''Yan'', Mileage := 0x4029000000000000\<rparr>"



section \<open>The consumer: acknowledgment and republication\<close>

lemma nack_message_acks:
  "acknowledgments (Log l # nack_message br) = [Nack False False]"
  "acknowledgments (Log l # Log l' # nack_message br) = [Nack False False]"
  by (simp_all add: acknowledgments_def nack_message_def split: option.splits)

lemma nack_message_republished:
  "republished (Log l # nack_message br) = []"
  "republished (Log l # Log l' # nack_message br) = []"
  by (auto simp: republished_def nack_message_def split: option.splits)

text \<open>
  Claim C1. When the body of a delivery decodes and \<open>TrackVehicle\<close> returns nil, the
  goroutine of the delivery publishes exactly one message, to the queue
  \<open>VehicleQueue\<close> of the configuration, with content type \<open>application/json\<close> and the
  body of the delivery as it came, and its only acknowledgment is \<open>Ack(false)\<close>. The
  answers of the broker (\<open>br\<close>, among them the result of the publication) are
  arbitrary, so a failed publication changes neither.
\<close>

theorem consume_success_republishes_and_acks:
  assumes "Unmarshal (Body msg) = Inr req" and "TrackVehicle req st = (None, st')"
  shows "republished (fst (handle_delivery Unmarshal TrackVehicle cfg br msg st)) =
           [(VehicleQueue cfg, \<lparr>ContentType = ''application/json'', PublishingBody = Body msg\<rparr>)]
       \<and> acknowledgments (fst (handle_delivery Unmarshal TrackVehicle cfg br msg st)) = [Ack False]
       \<and> snd (handle_delivery Unmarshal TrackVehicle cfg br msg st) = st'"
  using assms
  by (auto simp: handle_delivery_def republished_def acknowledgments_def publish_task_def
      ApplicationJSON_def split: option.splits)

theorem consume_success_witness:
  "sample_Unmarshal (Body \<lparr>Body = [123, 125]\<rparr>) = Inr [123, 125]
 \<and> sample_TrackVehicle [123, 125] [] = (None, [[123, 125]])
 \<and> republished (fst (handle_delivery sample_Unmarshal sample_TrackVehicle
       \<lparr>VehicleQueue = ''vehicle''\<rparr>
       \<lparr>nack_result = None, publish_result = Some (ErrExternal ''channel closed''),
        ack_result = None\<rparr>
       \<lparr>Body = [123, 125]\<rparr> [])) =
     [(''vehicle'', \<lparr>ContentType = ''application/json'', PublishingBody = [123, 125]\<rparr>)]
 \<and> acknowledgments (fst (handle_delivery sample_Unmarshal sample_TrackVehicle
       \<lparr>VehicleQueue = ''vehicle''\<rparr>
       \<lparr>nack_result = None, publish_result = Some (ErrExternal ''channel closed''),
        ack_result = None\<rparr>
       \<lparr>Body = [123, 125]\<rparr> [])) = [Ack False]"
  using consume_success_republishes_and_acks
    [where Unmarshal = sample_Unmarshal and TrackVehicle = sample_TrackVehicle
       and msg = "\<lparr>Body = [123, 125]\<rparr>" and req = "[123, 125]" and st = "[]"
       and st' = "[[123, 125]]" and cfg = "\<lparr>VehicleQueue = ''vehicle''\<rparr>"
       and br = "\<lparr>nack_result = None, publish_result = Some (ErrExternal ''channel closed''),
                  ack_result = None\<rparr>"]
  by (simp add: sample_Unmarshal_def sample_TrackVehicle_def)

text \<open>
  Claim C2. When the body of a delivery does not decode, or it decodes and
  \<open>TrackVehicle\<close> returns an error, the only acknowledgment of the goroutine is
  \<open>Nack(false, false)\<close> (no requeue), so there is no \<open>Ack\<close>, and nothing is published.
  On a decode failure the state of the service is the one before, whatever
  \<open>TrackVehicle\<close> would do: the service is not called and nothing is stored.
\<close>

theorem consume_failure_nacks:
  "(Unmarshal (Body msg) = Inl err \<longrightarrow>
      acknowledgments (fst (handle_delivery Unmarshal TrackVehicle cfg br msg st)) = [Nack False False]
    \<and> republished (fst (handle_delivery Unmarshal TrackVehicle cfg br msg st)) = []
    \<and> snd (handle_delivery Unmarshal TrackVehicle cfg br msg st) = st)
 \<and> (Unmarshal (Body msg) = Inr req \<and> TrackVehicle req st = (Some err, st') \<longrightarrow>
      acknowledgments (fst (handle_delivery Unmarshal TrackVehicle cfg br msg st)) = [Nack False False]
    \<and> republished (fst (handle_delivery Unmarshal TrackVehicle cfg br msg st)) = [])"
  by (simp add: handle_delivery_def nack_message_acks nack_message_republished)

theorem consume_failure_witness:
  "sample_Unmarshal (Body \<lparr>Body = []\<rparr>) = Inl (ErrExternal ''unexpected end of JSON input'')
 \<and> acknowledgments (fst (handle_delivery sample_Unmarshal (\<lambda>req st. (None, req # st))
       \<lparr>VehicleQueue = ''vehicle''\<rparr>
       \<lparr>nack_result = None, publish_result = None, ack_result = None\<rparr>
       \<lparr>Body = []\<rparr> [])) = [Nack False False]
 \<and> republished (fst (handle_delivery sample_Unmarshal (\<lambda>req st. (None, req # st))
       \<lparr>VehicleQueue = ''vehicle''\<rparr>
       \<lparr>nack_result = None, publish_result = None, ack_result = None\<rparr>
       \<lparr>Body = []\<rparr> [])) = []
 \<and> snd (handle_delivery sample_Unmarshal (\<lambda>req st. (None, req # st))
       \<lparr>VehicleQueue = ''vehicle''\<rparr>
       \<lparr>nack_result = None, publish_result = None, ack_result = None\<rparr>
       \<lparr>Body = []\<rparr> []) = []
 \<and> sample_Unmarshal (Body \<lparr>Body = [123]\<rparr>) = Inr [123]
 \<and> sample_TrackVehicle [123] [] = (Some (ErrExternal ''validation failed''), [])
 \<and> acknowledgments (fst (handle_delivery sample_Unmarshal sample_TrackVehicle
       \<lparr>VehicleQueue = ''vehicle''\<rparr>
       \<lparr>nack_result = None, publish_result = None, ack_result = None\<rparr>
       \<lparr>Body = [123]\<rparr> [])) = [Nack False False]
 \<and> republished (fst (handle_delivery sample_Unmarshal sample_TrackVehicle
       \<lparr>VehicleQueue = ''vehicle''\<rparr>
       \<lparr>nack_result = None, publish_result = None, ack_result = None\<rparr>
       \<lparr>Body = [123]\<rparr> [])) = []"
  using consume_failure_nacks
    [where Unmarshal = sample_Unmarshal and TrackVehicle = "\<lambda>req st. (None, req # st)"
       and msg = "\<lparr>Body = []\<rparr>" and err = "ErrExternal ''unexpected end of JSON input''"
       and st = "[]" and cfg = "\<lparr>VehicleQueue = ''vehicle''\<rparr>"
       and br = "\<lparr>nack_result = None, publish_result = None, ack_result = None\<rparr>"]
    consume_failure_nacks
    [where Unmarshal = sample_Unmarshal and TrackVehicle = sample_TrackVehicle
       and msg = "\<lparr>Body = [123]\<rparr>" and req = "[123]"
       and err = "ErrExternal ''validation failed''"
       and st = "[]" and st' = "[]" and cfg = "\<lparr>VehicleQueue = ''vehicle''\<rparr>"
       and br = "\<lparr>nack_result = None, publish_result = None, ack_result = None\<rparr>"]
  by (simp add: sample_Unmarshal_def sample_TrackVehicle_def)

section \<open>The service: writing an event\<close>

text \<open>
  Claim C8. When \<open>Validate\<close> rejects a submission, \<open>TrackVehicle\<close> returns that error
  and the database is the one before, whatever the repository's create operation
  would do with it: the operation is not called and nothing is stored. The same holds
  when the submission validates and its conversion to a record fails.
\<close>

theorem track_validation_failure_leaves_store:
  "(Validate req = Some err \<longrightarrow>
      MongoTrackingService_TrackVehicle Validate ToTrackingData repoCreate req db = (Some err, db))
 \<and> (Validate req = None \<and> ToTrackingData req = Inl err \<longrightarrow>
      MongoTrackingService_TrackVehicle Validate ToTrackingData repoCreate req db = (Some err, db))"
  by (simp add: MongoTrackingService_TrackVehicle_def)

theorem track_validation_failure_witness:
  "sample_Validate (- 1) = Some (ErrExternal ''mileage must not be negative'')
 \<and> MongoTrackingService_TrackVehicle sample_Validate Inr sample_repoCreate (- 1) [] =
     (Some (ErrExternal ''mileage must not be negative''), [])
 \<and> MongoTrackingService_TrackVehicle sample_Validate Inr sample_repoCreate 7 [] = (None, [7])
 \<and> sample_Validate 7 = None
 \<and> MongoTrackingService_TrackVehicle sample_Validate (\<lambda>r. Inl ErrInvalidHex) sample_repoCreate 7 [] =
     (Some ErrInvalidHex, [])"
  using track_validation_failure_leaves_store
    [where Validate = sample_Validate and req = "- 1"
       and err = "ErrExternal ''mileage must not be negative''"
       and ToTrackingData = Inr and repoCreate = sample_repoCreate and db = "[]"]
    track_validation_failure_leaves_store
    [where Validate = sample_Validate and req = 7 and err = ErrInvalidHex
       and ToTrackingData = "\<lambda>r. Inl ErrInvalidHex" and repoCreate = sample_repoCreate
       and db = "[]"]
  by (simp add: sample_Validate_def sample_repoCreate_def MongoTrackingService_TrackVehicle_def)

section \<open>The filter and the query of the repository\<close>

lemma Build_defaults_simps:
  "Page (Build_defaults f) = (if Page f = 0 then 1 else Page f)"
  "PageSize (Build_defaults f) = (if PageSize f = 0 then 10 else min (PageSize f) 100)"
  "SortField (Build_defaults f) = (if SortField f = [] then ''created_at'' else SortField f)"
  "SortOrder (Build_defaults f) = (if SortOrder f = [] then ''asc'' else SortOrder f)"
  "VehicleID (Build_defaults f) = VehicleID f"
  "Location (Build_defaults f) = Location f"
  "Mileage (Build_defaults f) = Mileage f"
  "Status (Build_defaults f) = Status f"
  "FuelCondition (Build_defaults f) = FuelCondition f"
  "vehicleID (Build_defaults f) = vehicleID f"
  by (simp_all add: Build_defaults_def Let_def)

lemma Build_Inr:
  assumes "Build E f = Inr f'"
  shows "f' = (Build_defaults f)\<lparr>vehicleID :=
            (if VehicleID f = [] then vehicleID f
             else (case ObjectIDFromHex (VehicleID f) of Inr oid \<Rightarrow> oid | Inl _ \<Rightarrow> vehicleID f))\<rparr>"
    and "VehicleID f \<noteq> [] \<Longrightarrow> \<exists>oid. ObjectIDFromHex (VehicleID f) = Inr oid"
    and "Status f \<noteq> [] \<Longrightarrow> VehicleStatus_Valid E (Status f) = None"
    and "FuelCondition f \<noteq> [] \<Longrightarrow> FuelCondition_Valid E (FuelCondition f) = None"
  using assms
  by (auto simp: Build_def Let_def Build_defaults_simps split: if_splits sum.splits option.splits)


lemma find_query_Some:
  assumes "find_query E (Some f) = Inr (m, opts)"
  obtains f' where "Build E f = Inr f'"
    and "m ''vehicle_id'' = (if VehicleID f' = [] then None else Some (BObjectID (vehicleID f')))"
    and "m ''location'' = (if Location f' = [] then None
           else Some (BDoc [(''$regex'', BString (''^'' @ Location f')), (''$options'', BString ''i'')]))"
    and "m ''mileage'' = (if float64_is_zero (Mileage f') then None
           else Some (BDoc [(''$gte'', BDouble (Mileage f'))]))"
    and "m ''status'' = (if Status f' = [] then None else Some (BString (Status f')))"
    and "m ''fuel_condition'' = (if FuelCondition f' = [] then None
           else Some (BString (FuelCondition f')))"
    and "dom m \<subseteq> {''vehicle_id'', ''location'', ''mileage'', ''status'', ''fuel_condition''}"
    and "opts = \<lparr>Sort = (if SortField f' = [] then None
                   else Some [(SortField f', if SortOrder f' = ''desc'' then - 1 else 1)]),
                 Skip = Some (wrap64 ((Page f' - 1) * PageSize f')),
                 Limit = Some (PageSize f')\<rparr>"
proof -
  from assms obtain f' where b: "Build E f = Inr f'"
    by (auto simp: find_query_def split: sum.splits)
  from assms b have m: "m = (let m0 = Map.empty;
                    m1 = (if VehicleID f' \<noteq> []
                          then m0(''vehicle_id'' \<mapsto> BObjectID (VehicleObjID f')) else m0);
                    m2 = (if Location f' \<noteq> []
                          then m1(''location'' \<mapsto>
                                 BDoc [(''$regex'', BString (''^'' @ Location f')),
                                       (''$options'', BString ''i'')])
                          else m1);
                    m3 = (if \<not> float64_is_zero (Mileage f')
                          then m2(''mileage'' \<mapsto> BDoc [(''$gte'', BDouble (Mileage f'))])
                          else m2);
                    m4 = (if Status f' \<noteq> [] then m3(''status'' \<mapsto> BString (Status f')) else m3)
                 in (if FuelCondition f' \<noteq> []
                          then m4(''fuel_condition'' \<mapsto> BString (FuelCondition f')) else m4))"
    by (simp add: find_query_def Let_def)
  from assms b have o: "opts = \<lparr>Sort = (if SortField f' = [] then None
                   else Some [(SortField f', if SortOrder f' = ''desc'' then - 1 else 1)]),
                 Skip = Some (wrap64 ((Page f' - 1) * PageSize f')),
                 Limit = Some (PageSize f')\<rparr>"
    by (auto simp: find_query_def Let_def options_Find_def)
  show thesis
  proof (rule that [OF b _ _ _ _ _ _ o])
    show "m ''vehicle_id'' = (if VehicleID f' = [] then None else Some (BObjectID (vehicleID f')))"
      by (simp add: m Let_def VehicleObjID_def)
    show "m ''location'' = (if Location f' = [] then None
           else Some (BDoc [(''$regex'', BString (''^'' @ Location f')), (''$options'', BString ''i'')]))"
      by (simp add: m Let_def)
    show "m ''mileage'' = (if float64_is_zero (Mileage f') then None
           else Some (BDoc [(''$gte'', BDouble (Mileage f'))]))"
      by (simp add: m Let_def)
    show "m ''status'' = (if Status f' = [] then None else Some (BString (Status f')))"
      by (simp add: m Let_def)
    show "m ''fuel_condition'' = (if FuelCondition f' = [] then None
           else Some (BString (FuelCondition f')))"
      by (simp add: m Let_def)
    show "dom m \<subseteq> {''vehicle_id'', ''location'', ''mileage'', ''status'', ''fuel_condition''}"
      unfolding m Let_def by (auto split: if_splits)
  qed
qed

lemmas query_eval =
  resolved_filter_def decode_query_def json_Marshal_def json_Unmarshal_def decode_field_def
  ascii_lower_def Atoi_def is_digit_def digit_val_def Build_def Build_defaults_def zero_filter_def
  jvalue_finite_def Let_def char_of_eq_iff

lemma Build_cases:
  "Build E f =
     (if VehicleID f \<noteq> [] \<and> (\<exists>e. ObjectIDFromHex (VehicleID f) = Inl e) then Inl ErrInvalidID
      else if Status f \<noteq> [] \<and> VehicleStatus_Valid E (Status f) \<noteq> None
        then Inl (the (VehicleStatus_Valid E (Status f)))
      else if FuelCondition f \<noteq> [] \<and> FuelCondition_Valid E (FuelCondition f) \<noteq> None
        then Inl (the (FuelCondition_Valid E (FuelCondition f)))
      else Inr (if VehicleID f = [] then Build_defaults f
                else (Build_defaults f)\<lparr>vehicleID := projr (ObjectIDFromHex (VehicleID f))\<rparr>))"
  by (cases "ObjectIDFromHex (VehicleID f)")
     (auto simp: Build_def Let_def Build_defaults_simps split: option.splits)

lemma Build_defaults_SortOrder:
  "Build_defaults (f\<lparr>SortOrder := s\<rparr>) =
     (Build_defaults f)\<lparr>SortOrder := (if s = [] then ''asc'' else s)\<rparr>"
  by (simp add: Build_defaults_def Let_def)


lemma Build_SortOrder:
  assumes "Build E f = Inr f'"
  shows "Build E (f\<lparr>SortOrder := s\<rparr>) = Inr (f'\<lparr>SortOrder := (if s = [] then ''asc'' else s)\<rparr>)"
  using assms
  by (auto simp: Build_cases Build_defaults_SortOrder split: if_splits)


lemma find_query_Build:
  assumes "Build E f = Inr f'"
  shows "\<exists>m opts. find_query E (Some f) = Inr (m, opts)
           \<and> Sort opts = (if SortField f' = [] then None
                else Some [(SortField f', if SortOrder f' = ''desc'' then - 1 else 1)])"
  using assms by (simp add: find_query_def Let_def options_Find_def)




text \<open>
  Claim C10. Nothing validates the sort order. Whenever the find reaches the database
  the direction is -1 exactly when the sort order is the text \<open>desc\<close> and 1 for every
  other text, and replacing the sort order by any text \<open>s\<close> whatever (\<open>DESC\<close>,
  \<open>descending\<close>) leaves the build successful, with direction -1 exactly for \<open>desc\<close>.
\<close>

theorem sort_order_not_validated:
  assumes "find_query E (Some f) = Inr (m, opts)"
  shows "(\<exists>key. Sort opts = Some [(key, if SortOrder f = ''desc'' then - 1 else 1)])
       \<and> (\<exists>m' opts' key. find_query E (Some (f\<lparr>SortOrder := s\<rparr>)) = Inr (m', opts')
            \<and> Sort opts' = Some [(key, if s = ''desc'' then - 1 else 1)])"
proof -
  from assms obtain f' where b: "Build E f = Inr f'"
    and o: "opts = \<lparr>Sort = (if SortField f' = [] then None
                   else Some [(SortField f', if SortOrder f' = ''desc'' then - 1 else 1)]),
                 Skip = Some (wrap64 ((Page f' - 1) * PageSize f')),
                 Limit = Some (PageSize f')\<rparr>"
    by (rule find_query_Some)
  note f' = Build_Inr(1) [OF b]
  have sf: "SortField f' \<noteq> []" and so: "SortOrder f' = (if SortOrder f = [] then ''asc'' else SortOrder f)"
    by (simp_all add: f' Build_defaults_simps)
  have p1: "\<exists>key. Sort opts = Some [(key, if SortOrder f = ''desc'' then - 1 else 1)]"
    using sf by (simp add: o so)
  from find_query_Build [OF Build_SortOrder [OF b, of s]] sf
  have p2: "\<exists>m' opts' key. find_query E (Some (f\<lparr>SortOrder := s\<rparr>)) = Inr (m', opts')
            \<and> Sort opts' = Some [(key, if s = ''desc'' then - 1 else 1)]"
    by auto
  from p1 p2 show ?thesis by (rule conjI)
qed

theorem sort_order_not_validated_witness:
  "find_query spec_extern (Some sample_filter) =
     Inr ([''location'' \<mapsto> BDoc [(''$regex'', BString ''^Yan''), (''$options'', BString ''i'')],
           ''mileage'' \<mapsto> BDoc [(''$gte'', BDouble 0x4029000000000000)]],
          \<lparr>Sort = Some [(''anything'', 1)], Skip = Some 200, Limit = Some 100\<rparr>)
 \<and> SortOrder sample_filter = ''DESC''
 \<and> (\<exists>m' opts' key. find_query spec_extern (Some (sample_filter\<lparr>SortOrder := ''descending''\<rparr>)) =
        Inr (m', opts') \<and> Sort opts' = Some [(key, 1)])"
  using sort_order_not_validated
    [where E = spec_extern and f = sample_filter
       and m = "[''location'' \<mapsto> BDoc [(''$regex'', BString ''^Yan''), (''$options'', BString ''i'')],
                 ''mileage'' \<mapsto> BDoc [(''$gte'', BDouble 0x4029000000000000)]]"
       and opts = "\<lparr>Sort = Some [(''anything'', 1)], Skip = Some 200, Limit = Some 100\<rparr>"
       and s = "''descending''"]
  by (simp add: find_query_def Build_def Build_defaults_def sample_filter_def zero_filter_def
      Let_def options_Find_def float64_is_zero_def wrap64_def)

section \<open>Page and page size below one\<close>

text \<open>
  Claim C4. The query \<open>page=-3&limit=-5\<close> builds and resolves to page -3 and page size
  -5: \<open>Build\<close> replaces only the value 0 and the values above 100, so a negative page or
  page size stays as it was sent.
\<close>

theorem negative_page_and_limit_resolved:
  "resolved_filter spec_extern [(''page'', [''-3'']), (''limit'', [''-5''])] =
     Some (Inr (zero_filter\<lparr>Page := - 3, PageSize := - 5, SortField := ''created_at'',
                              SortOrder := ''asc''\<rparr>))"
  by (simp add: query_eval)

section \<open>The query endpoint\<close>

text \<open>
  Claim C9. The handler answers 405 when the method is not GET, without calling the
  service; 400 with the error when the service returns one (a filter that fails to
  build is such a case); 404 when the service returns no record; and 200 when it
  returns at least one, the body being the success envelope of the records and the
  message whenever the encoder reports no error.
\<close>

theorem query_endpoint_status:
  "(Method r \<noteq> ''GET'' \<longrightarrow>
      V1TrackingHandler_FindTrackingData svcFind Encode r db =
        Some (\<lparr>StatusCode = 405, Payload = Some (ErrorResponse ErrMethodNotAllowed)\<rparr>, [], db))
 \<and> (Method r = ''GET'' \<and> svcFind (Query r) db = Some (Inl err, db') \<longrightarrow>
      V1TrackingHandler_FindTrackingData svcFind Encode r db =
        Some (\<lparr>StatusCode = 400, Payload = Some (ErrorResponse err)\<rparr>, [], db'))
 \<and> (Method r = ''GET'' \<and> svcFind (Query r) db = Some (Inr [], db') \<longrightarrow>
      V1TrackingHandler_FindTrackingData svcFind Encode r db =
        Some (\<lparr>StatusCode = 404, Payload = Some (ErrorResponse ErrNotFound)\<rparr>, [], db'))
 \<and> (Method r = ''GET'' \<and> svcFind (Query r) db = Some (Inr (v # vs), db') \<longrightarrow>
      (\<exists>rsp logs. V1TrackingHandler_FindTrackingData svcFind Encode r db = Some (rsp, logs, db')
         \<and> StatusCode rsp = 200
         \<and> (Encode (SuccessResponse (v # vs) ''successfully fetched tracking data'') = None \<longrightarrow>
              Payload rsp = Some (SuccessResponse (v # vs) ''successfully fetched tracking data''))))"
  by (simp add: V1TrackingHandler_FindTrackingData_def MethodGet_def HandleError_def
      DefaultSuccessResponse_def split: option.splits)


theorem query_endpoint_witness:
  "V1TrackingHandler_FindTrackingData
     (MongoTrackingService_FindTrackingData spec_extern
        (MongoTackingRepository_FindTrackingData spec_extern sample_collection_Find))
     (\<lambda>env. None) \<lparr>Method = ''POST'', Query = []\<rparr> [7] =
     Some (\<lparr>StatusCode = 405, Payload = Some (ErrorResponse ErrMethodNotAllowed)\<rparr>, [], [7])
 \<and> V1TrackingHandler_FindTrackingData
     (MongoTrackingService_FindTrackingData spec_extern
        (MongoTackingRepository_FindTrackingData spec_extern sample_collection_Find))
     (\<lambda>env. None) \<lparr>Method = ''GET'', Query = [(''status'', [''bogus''])]\<rparr> [7] =
     Some (\<lparr>StatusCode = 400, Payload = Some (ErrorResponse (ErrExternal ''bogus''))\<rparr>, [], [7])
 \<and> V1TrackingHandler_FindTrackingData
     (MongoTrackingService_FindTrackingData spec_extern
        (MongoTackingRepository_FindTrackingData spec_extern sample_collection_Find))
     (\<lambda>env. None) \<lparr>Method = ''GET'', Query = []\<rparr> [] =
     Some (\<lparr>StatusCode = 404, Payload = Some (ErrorResponse ErrNotFound)\<rparr>, [], [])
 \<and> (\<exists>rsp logs. V1TrackingHandler_FindTrackingData
     (MongoTrackingService_FindTrackingData spec_extern
        (MongoTackingRepository_FindTrackingData spec_extern sample_collection_Find))
     (\<lambda>env. None) \<lparr>Method = ''GET'', Query = []\<rparr> [7] = Some (rsp, logs, [7])
     \<and> StatusCode rsp = 200
     \<and> Payload rsp = Some (SuccessResponse [7] ''successfully fetched tracking data''))"
proof -
  let ?svc = "MongoTrackingService_FindTrackingData spec_extern
        (MongoTackingRepository_FindTrackingData spec_extern sample_collection_Find)"
  have a: "?svc [(''status'', [''bogus''])] ([7]::nat list) = Some (Inl (ErrExternal ''bogus''), [7])"
    by (simp add: MongoTrackingService_FindTrackingData_def
        MongoTackingRepository_FindTrackingData_def find_query_def sample_collection_Find_def
        spec_extern_def enum_Valid_def VehicleStatuses_def query_eval)
  have b: "?svc [] (db::nat list) = Some (Inr db, db)" for db
    by (simp add: MongoTrackingService_FindTrackingData_def
        MongoTackingRepository_FindTrackingData_def find_query_def sample_collection_Find_def
        query_eval)
  show ?thesis
    using query_endpoint_status
      [where svcFind = ?svc and Encode = "\<lambda>env. None" and r = "\<lparr>Method = ''POST'', Query = []\<rparr>"
         and db = "[7]"]
      query_endpoint_status
      [where svcFind = ?svc and Encode = "\<lambda>env. None"
         and r = "\<lparr>Method = ''GET'', Query = [(''status'', [''bogus''])]\<rparr>"
         and db = "[7]" and db' = "[7]" and err = "ErrExternal ''bogus''"]
      query_endpoint_status
      [where svcFind = ?svc and Encode = "\<lambda>env. None" and r = "\<lparr>Method = ''GET'', Query = []\<rparr>"
         and db = "[]" and db' = "[]"]
      query_endpoint_status
      [where svcFind = ?svc and Encode = "\<lambda>env. None" and r = "\<lparr>Method = ''GET'', Query = []\<rparr>"
         and db = "[7]" and db' = "[7]" and v = 7 and vs = "[]"]
      a b [of "[]"] b [of "[7]"]
    by auto
qed

section \<open>Query parameters the filter does not know\<close>

lemma decode_field_unrecognized: "\<not> recognized (fst kv) \<Longrightarrow> decode_field kv f = Inr f"
  by (simp add: decode_field_def recognized_def filter_keys_def Let_def)

lemma decode_fields_recognized:
  "decode_fields (filter (\<lambda>kv. recognized (fst kv)) xs) f = decode_fields xs f"
  by (induction xs arbitrary: f) (auto simp: decode_field_unrecognized split: sum.splits)

lemma recognized_exact: "k \<in> set filter_keys \<Longrightarrow> recognized k"
  by (auto simp: recognized_def filter_keys_def ascii_lower_def)

lemma filter_update_recognized:
  "P k \<Longrightarrow> filter (\<lambda>kv. P (fst kv)) (AList.update k v d) = AList.update k v (filter (\<lambda>kv. P (fst kv)) d)"
  by (induction d) auto

lemma filter_update_unrecognized:
  "\<not> P k \<Longrightarrow> filter (\<lambda>kv. P (fst kv)) (AList.update k v d) = filter (\<lambda>kv. P (fst kv)) d"
  by (induction d) auto

lemma set_update_subset: "set (AList.update k v d) \<subseteq> insert (k, v) (set d)"
  by (induction d) auto

lemma list_all_update:
  "list_all P d \<Longrightarrow> P (k, v) \<Longrightarrow> list_all P (AList.update k v d)"
  using set_update_subset [of k v d] by (auto simp: list_all_iff)

lemma data_rel_update:
  assumes "data_rel d1 d2" and "recognized k \<or> jvalue_finite v"
  shows "data_rel (AList.update k v d1) (AList.update k v d2)"
proof (cases "recognized k")
  case True
  with assms show ?thesis
    by (simp add: data_rel_def filter_update_recognized [where P = recognized] list_all_update)
next
  case False
  with assms show ?thesis
    by (simp add: data_rel_def filter_update_unrecognized [where P = recognized] list_all_update)
qed

lemma data_rel_update_left:
  assumes "data_rel d1 d2" and "\<not> recognized k" and "jvalue_finite v"
  shows "data_rel (AList.update k v d1) d2"
  using assms
  by (simp add: data_rel_def filter_update_unrecognized [where P = recognized] list_all_update)

lemma build_data_rel:
  "data_rel d1 d2 \<Longrightarrow> rel_option (rel_sum (=) data_rel) (build_data E q d1) (build_data E q d2)"
proof (induction q arbitrary: d1 d2)
  case Nil
  then show ?case by simp
next
  case (Cons kv q)
  obtain key val where kv: "kv = (key, val)" by (cases kv)
  show ?case
  proof (cases val)
    case Nil
    with kv show ?thesis by simp
  next
    case (Cons v0 vs)
    have step: "rel_option (rel_sum (=) data_rel)
                  (build_data E q (AList.update key x d1)) (build_data E q (AList.update key x d2))"
      if "recognized key \<or> jvalue_finite x" for x
      by (rule Cons.IH, rule data_rel_update [OF Cons.prems that])
    have r: "recognized ''page''" "recognized ''limit''" "recognized ''mileage''"
      by (simp_all add: recognized_exact filter_keys_def)
    consider (page) "key = ''page''" | (limit) "key = ''limit''" | (float) "key = ''mileage''"
      | (str) "key \<noteq> ''page''" "key \<noteq> ''limit''" "key \<noteq> ''mileage''"
      by blast
    then show ?thesis
    proof cases
      case page
      then have st: "\<And>x. rel_option (rel_sum (=) data_rel)
                  (build_data E q (AList.update key x d1)) (build_data E q (AList.update key x d2))"
        using step r by simp
      show ?thesis
      proof (cases "Atoi v0")
        case (Inl e)
        then show ?thesis using kv Cons page by simp
      next
        case (Inr n)
        then show ?thesis using kv Cons page st [of "JInt n"] by simp
      qed
    next
      case limit
      then have st: "\<And>x. rel_option (rel_sum (=) data_rel)
                  (build_data E q (AList.update key x d1)) (build_data E q (AList.update key x d2))"
        using step r by simp
      show ?thesis
      proof (cases "Atoi v0")
        case (Inl e)
        then show ?thesis using kv Cons limit by simp
      next
        case (Inr n)
        then show ?thesis using kv Cons limit st [of "JInt n"] by simp
      qed
    next
      case float
      then have st: "\<And>x. rel_option (rel_sum (=) data_rel)
                  (build_data E q (AList.update key x d1)) (build_data E q (AList.update key x d2))"
        using step r by simp
      show ?thesis
      proof (cases "ParseFloat E v0")
        case (Inl e)
        then show ?thesis using kv Cons float by simp
      next
        case (Inr x)
        then show ?thesis using kv Cons float st [of "JFloat x"] by simp
      qed
    next
      case str
      have "rel_option (rel_sum (=) data_rel)
              (build_data E q (AList.update key (JString v0) d1))
              (build_data E q (AList.update key (JString v0) d2))"
        by (rule step) (simp add: jvalue_finite_def)
      then show ?thesis
        using kv Cons str by simp
    qed
  qed
qed

lemma build_data_append:
  "build_data E (q1 @ q2) d =
     (case build_data E q1 d of
        None \<Rightarrow> None
      | Some (Inl e) \<Rightarrow> Some (Inl e)
      | Some (Inr d') \<Rightarrow> build_data E q2 d')"
proof (induction q1 arbitrary: d)
  case Nil
  then show ?case by simp
next
  case (Cons kv q1)
  obtain key val where kv: "kv = (key, val)" by (cases kv)
  show ?case using kv Cons.IH by (auto split: list.splits sum.splits)
qed

lemma list_all_finite_filter:
  assumes "list_all (\<lambda>kv. recognized (fst kv) \<or> jvalue_finite (snd kv)) d"
  shows "list_all (\<lambda>kv. jvalue_finite (snd kv)) d =
         list_all (\<lambda>kv. jvalue_finite (snd kv)) (filter (\<lambda>kv. recognized (fst kv)) d)"
  using assms by (auto simp: list_all_iff)

lemma data_rel_roundtrip:
  assumes "data_rel d1 d2"
  shows "json_roundtrip d1 = json_roundtrip d2"
proof -
  have fin: "list_all (\<lambda>kv. jvalue_finite (snd kv)) d1 = list_all (\<lambda>kv. jvalue_finite (snd kv)) d2"
    using assms list_all_finite_filter [of d1] list_all_finite_filter [of d2]
    by (simp add: data_rel_def)
  have sorted_rec: "decode_fields (sort_key fst d) zero_filter =
        decode_fields (sort_key fst (filter (\<lambda>kv. recognized (fst kv)) d)) zero_filter" for d
    using decode_fields_recognized [of "sort_key fst d" zero_filter]
    by (simp only: filter_sort)
  have "decode_fields (sort_key fst d1) zero_filter =
        decode_fields (sort_key fst (filter (\<lambda>kv. recognized (fst kv)) d1)) zero_filter"
    by (rule sorted_rec)
  also have "\<dots> = decode_fields (sort_key fst (filter (\<lambda>kv. recognized (fst kv)) d2)) zero_filter"
    using assms by (simp only: data_rel_def)
  also have "\<dots> = decode_fields (sort_key fst d2) zero_filter"
    by (rule sorted_rec [symmetric])
  finally show ?thesis
    using fin by (simp add: json_roundtrip_def json_Marshal_def json_Unmarshal_def)
qed

lemma decode_query_roundtrip:
  "decode_query E q =
     (case build_data E q [] of
        None \<Rightarrow> None
      | Some (Inl e) \<Rightarrow> Some (Inl e)
      | Some (Inr d) \<Rightarrow> Some (json_roundtrip d))"
  by (simp add: decode_query_def json_roundtrip_def split: option.splits sum.splits)

lemma data_rel_Nil: "data_rel [] []"
  by (simp add: data_rel_def)

lemma unrecognized_key_ignored:
  assumes "\<not> recognized k"
  shows "decode_query E (q1 @ (k, v # vs) # q2) = decode_query E (q1 @ q2)"
proof -
  have nk: "k \<noteq> ''page''" "k \<noteq> ''limit''" "k \<noteq> ''mileage''"
    using assms recognized_exact by (auto simp: filter_keys_def)
  show ?thesis
  proof (cases "build_data E q1 []")
    case None
    then show ?thesis by (simp add: decode_query_roundtrip build_data_append)
  next
    case (Some r)
    show ?thesis
    proof (cases r)
      case (Inl e)
      with Some show ?thesis by (simp add: decode_query_roundtrip build_data_append)
    next
      case (Inr d)
      have "rel_option (rel_sum (=) data_rel) (build_data E q1 []) (build_data E q1 [])"
        by (rule build_data_rel [OF data_rel_Nil])
      with Some Inr have "data_rel d d" by simp
      then have "data_rel (AList.update k (JString v) d) d"
        using assms by (rule data_rel_update_left) (simp add: jvalue_finite_def)
      then have rel: "rel_option (rel_sum (=) data_rel)
          (build_data E q2 (AList.update k (JString v) d)) (build_data E q2 d)"
        by (rule build_data_rel)
      have l: "build_data E (q1 @ (k, v # vs) # q2) [] = build_data E q2 (AList.update k (JString v) d)"
        using Some Inr nk by (simp add: build_data_append)
      have r: "build_data E (q1 @ q2) [] = build_data E q2 d"
        using Some Inr by (simp add: build_data_append)
      show ?thesis
      proof (cases "build_data E q2 d")
        case None
        with rel show ?thesis
          unfolding decode_query_roundtrip l r by (cases "build_data E q2 (AList.update k (JString v) d)") simp_all
      next
        case (Some r2)
        with rel obtain r1 where r1: "build_data E q2 (AList.update k (JString v) d) = Some r1"
          and rr: "rel_sum (=) data_rel r1 r2"
          by (cases "build_data E q2 (AList.update k (JString v) d)") simp_all
        from rr show ?thesis
          unfolding decode_query_roundtrip l r Some r1
          by cases (simp_all add: data_rel_roundtrip)
      qed
    qed
  qed
qed

text \<open>
  A parameter whose key the decoder does not recognize leaves the outcome of the
  service as it is without the parameter, wherever the loop meets it.
\<close>

lemma unrecognized_parameter_ignored:
  assumes "\<not> recognized k"
  shows "resolved_filter E (q1 @ (k, v # vs) # q2) = resolved_filter E (q1 @ q2)"
    and "MongoTrackingService_FindTrackingData E repoFind (q1 @ (k, v # vs) # q2) db =
         MongoTrackingService_FindTrackingData E repoFind (q1 @ q2) db"
  by (simp_all only: resolved_filter_def MongoTrackingService_FindTrackingData_def
      unrecognized_key_ignored [OF assms])

text \<open>
  Claim C6. The key \<open>Page\<close> is none of the keys of the filter, and the query
  \<open>Page=1\<close> is rejected, while the empty query builds: the loop of the service
  compares keys exactly and hands \<open>Page\<close> on as a string, and the JSON decoder, which
  compares keys without regard to the case of letters, then finds a string for the
  integer field \<open>page\<close>. In the same way \<open>Sort_By=location\<close> is not ignored but sets
  the sort field.
\<close>

theorem case_variant_of_page_rejected:
  "''Page'' \<notin> set filter_keys
 \<and> resolved_filter spec_extern [] =
     Some (Inr (zero_filter\<lparr>Page := 1, PageSize := 10, SortField := ''created_at'',
                              SortOrder := ''asc''\<rparr>))
 \<and> resolved_filter spec_extern [(''Page'', [''1''])] = Some (Inl (ErrUnmarshalType ''Page''))
 \<and> MongoTrackingService_FindTrackingData spec_extern
       (MongoTackingRepository_FindTrackingData spec_extern sample_collection_Find)
       [(''Page'', [''1''])] [7] = Some (Inl (ErrUnmarshalType ''Page''), [7])
 \<and> ''Sort_By'' \<notin> set filter_keys
 \<and> resolved_filter spec_extern [(''Sort_By'', [''location''])] =
     Some (Inr (zero_filter\<lparr>Page := 1, PageSize := 10, SortField := ''location'',
                              SortOrder := ''asc''\<rparr>))"
  by (simp add: filter_keys_def MongoTrackingService_FindTrackingData_def query_eval)

section \<open>Failures of the filter build\<close>

text \<open>
  Among the keys that differ only in the case of their letters the one written in
  lower case is the greatest, so it is the last one the decoder reads and its value is
  the one the field keeps.
\<close>

lemma ascii_lower_ge: "c \<le> ascii_lower c"
  by (simp add: ascii_lower_def less_eq_char_def)

lemma lower_key_ge: "k \<le> map ascii_lower k"
proof (induction k)
  case Nil
  then show ?case by simp
next
  case (Cons c cs)
  have "c < ascii_lower c \<or> c = ascii_lower c"
    using ascii_lower_ge [of c] by (simp add: le_less)
  with Cons show ?case by auto
qed

lemma decode_fields_append:
  "decode_fields (xs @ ys) f =
     (case decode_fields xs f of Inl e \<Rightarrow> Inl e | Inr f1 \<Rightarrow> decode_fields ys f1)"
  by (induction xs arbitrary: f) (auto split: sum.splits)

lemma decode_fields_keeps:
  assumes keeps: "\<And>kv f f'. decode_field kv f = Inr f' \<Longrightarrow> map ascii_lower (fst kv) \<noteq> t \<Longrightarrow> g f' = g f"
    and "decode_fields xs f = Inr f'"
    and "\<forall>kv\<in>set xs. map ascii_lower (fst kv) \<noteq> t"
  shows "g f' = g f"
  using assms(2,3)
proof (induction xs arbitrary: f)
  case Nil
  then show ?case by simp
next
  case (Cons kv xs)
  from Cons.prems(1) obtain f1 where f1: "decode_field kv f = Inr f1"
    and rest: "decode_fields xs f1 = Inr f'"
    by (auto split: sum.splits)
  have "g f1 = g f" using keeps [OF f1] Cons.prems(2) by simp
  moreover have "g f' = g f1" using Cons.IH [OF rest] Cons.prems(2) by simp
  ultimately show ?case by simp
qed

lemma decode_fields_exact_key_last:
  assumes keeps: "\<And>kv f f'. decode_field kv f = Inr f' \<Longrightarrow> map ascii_lower (fst kv) \<noteq> t \<Longrightarrow> g f' = g f"
    and sets: "\<And>f f'. decode_field (t, x) f = Inr f' \<Longrightarrow> g f' = v"
    and srt: "sorted (map fst xs)" and dst: "distinct (map fst xs)"
    and mem: "(t, x) \<in> set xs"
    and dec: "decode_fields xs f = Inr f'"
  shows "g f' = v"
proof -
  from mem obtain ys zs where xs: "xs = ys @ (t, x) # zs"
    by (auto dest: split_list)
  from dec obtain f1 f2 where "decode_fields ys f = Inr f1"
    and f2: "decode_field (t, x) f1 = Inr f2" and zs: "decode_fields zs f2 = Inr f'"
    unfolding xs decode_fields_append by (auto split: sum.splits)
  have "\<forall>kv\<in>set zs. map ascii_lower (fst kv) \<noteq> t"
  proof
    fix kv assume kv: "kv \<in> set zs"
    have "t \<le> fst kv" using srt kv unfolding xs by (auto simp: sorted_append)
    moreover have "fst kv \<noteq> t" using dst kv unfolding xs by auto
    ultimately have "t < fst kv" by simp
    then show "map ascii_lower (fst kv) \<noteq> t"
      using lower_key_ge [of "fst kv"] by auto
  qed
  from decode_fields_keeps [of t g, OF keeps zs this] have "g f' = g f2" .
  with sets [OF f2] show ?thesis by simp
qed

lemma decode_field_keeps:
  assumes "decode_field kv f = Inr f'"
  shows "map ascii_lower (fst kv) \<noteq> ''page'' \<Longrightarrow> Page f' = Page f"
    and "map ascii_lower (fst kv) \<noteq> ''limit'' \<Longrightarrow> PageSize f' = PageSize f"
    and "map ascii_lower (fst kv) \<noteq> ''sort_by'' \<Longrightarrow> SortField f' = SortField f"
    and "map ascii_lower (fst kv) \<noteq> ''sort_order'' \<Longrightarrow> SortOrder f' = SortOrder f"
    and "map ascii_lower (fst kv) \<noteq> ''vehicle_id'' \<Longrightarrow> VehicleID f' = VehicleID f"
    and "map ascii_lower (fst kv) \<noteq> ''status'' \<Longrightarrow> Status f' = Status f"
    and "map ascii_lower (fst kv) \<noteq> ''fuel_condition'' \<Longrightarrow> FuelCondition f' = FuelCondition f"
  using assms
  by (cases "snd kv"; auto simp: decode_field_def Let_def split: if_splits)+



lemma build_data_no_panic:
  "\<forall>kv\<in>set q. snd kv \<noteq> [] \<Longrightarrow> build_data E q d \<noteq> None"
proof (induction q arbitrary: d)
  case Nil
  then show ?case by simp
next
  case (Cons kv q)
  obtain key val where kv: "kv = (key, val)" by (cases kv)
  with Cons.prems obtain v0 vs where val: "val = v0 # vs" by (cases val) auto
  from Cons have ih: "\<And>d. \<exists>y. build_data E q d = Some y" by simp
  show ?case
    unfolding kv val by (simp add: ih split: sum.splits)
qed

lemma build_data_convert_error:
  assumes "\<forall>kv\<in>set q. snd kv \<noteq> []"
    and "(k, v # vs) \<in> set q"
    and "(k = ''page'' \<or> k = ''limit'') \<and> (\<exists>e. Atoi v = Inl e)
         \<or> k = ''mileage'' \<and> (\<exists>e. ParseFloat E v = Inl e)"
  shows "\<exists>e. build_data E q d = Some (Inl e)"
  using assms(1,2)
proof (induction q arbitrary: d)
  case Nil
  then show ?case by simp
next
  case (Cons kv q)
  obtain key val where kv: "kv = (key, val)" by (cases kv)
  with Cons.prems obtain v0 vs0 where val: "val = v0 # vs0" by (cases val) auto
  show ?case
  proof (cases "kv = (k, v # vs)")
    case True
    then have "key = k" "v0 = v" using kv val by simp_all
    then show ?thesis
      using assms(3) unfolding kv val by auto
  next
    case False
    with Cons.prems have "(k, v # vs) \<in> set q" by simp
    with Cons have ih: "\<And>d. \<exists>e. build_data E q d = Some (Inl e)" by simp
    show ?thesis
      unfolding kv val by (simp add: ih split: sum.splits)
  qed
qed


lemma build_data_distinct:
  "build_data E q d = Some (Inr d') \<Longrightarrow> distinct (map fst d) \<Longrightarrow> distinct (map fst d')"
proof (induction q arbitrary: d)
  case Nil
  then show ?case by simp
next
  case (Cons kv q)
  obtain key val where kv: "kv = (key, val)" by (cases kv)
  from Cons.prems(1) obtain x where "build_data E q (AList.update key x d) = Some (Inr d')"
    unfolding kv by (auto split: list.splits sum.splits if_splits)
  from Cons.IH [OF this] Cons.prems(2) show ?case
    by (simp add: distinct_update)
qed

lemma build_data_untouched:
  "build_data E q d = Some (Inr d') \<Longrightarrow> k \<notin> fst ` set q \<Longrightarrow> map_of d' k = map_of d k"
proof (induction q arbitrary: d)
  case Nil
  then show ?case by simp
next
  case (Cons kv q)
  obtain key val where kv: "kv = (key, val)" by (cases kv)
  from Cons.prems(1) obtain x where "build_data E q (AList.update key x d) = Some (Inr d')"
    unfolding kv by (auto split: list.splits sum.splits if_splits)
  from Cons.IH [OF this] Cons.prems(2) show ?case
    unfolding kv by (simp add: update_conv')
qed

lemma build_data_string:
  assumes "build_data E q d = Some (Inr d')" and "distinct (map fst q)"
    and "(k, v # vs) \<in> set q" and "k \<noteq> ''page''" "k \<noteq> ''limit''" "k \<noteq> ''mileage''"
  shows "map_of d' k = Some (JString v)"
  using assms(1,2,3)
proof (induction q arbitrary: d)
  case Nil
  then show ?case by simp
next
  case (Cons kv q)
  obtain key val where kv: "kv = (key, val)" by (cases kv)
  show ?case
  proof (cases "kv = (k, v # vs)")
    case True
    then have kk: "key = k" "val = v # vs" using kv by simp_all
    from Cons.prems(1) have b: "build_data E q (AList.update k (JString v) d) = Some (Inr d')"
      unfolding kv kk using assms(4-6) by simp
    have "k \<notin> fst ` set q" using Cons.prems(2) unfolding kv kk by auto
    from build_data_untouched [OF b this] show ?thesis
      by (simp add: update_conv')
  next
    case False
    from Cons.prems(1) obtain x where b: "build_data E q (AList.update key x d) = Some (Inr d')"
      unfolding kv by (auto split: list.splits sum.splits if_splits)
    from False Cons.prems have "(k, v # vs) \<in> set q" "distinct (map fst q)" by auto
    from Cons.IH [OF b this(2,1)] show ?thesis .
  qed
qed


text \<open>The loop stores an integer under \<open>page\<close> and \<open>limit\<close>, a float under \<open>mileage\<close>
  and a string under every other key.\<close>

lemma build_data_kinds:
  assumes "build_data E q d = Some (Inr d')"
    and "\<forall>kv\<in>set d. (fst kv = ''page'' \<or> fst kv = ''limit'' \<longrightarrow> (\<exists>n. snd kv = JInt n))
                     \<and> (fst kv = ''mileage'' \<longrightarrow> (\<exists>x. snd kv = JFloat x))"
  shows "\<forall>kv\<in>set d'. (fst kv = ''page'' \<or> fst kv = ''limit'' \<longrightarrow> (\<exists>n. snd kv = JInt n))
                     \<and> (fst kv = ''mileage'' \<longrightarrow> (\<exists>x. snd kv = JFloat x))"
  using assms
proof (induction q arbitrary: d)
  case Nil
  then show ?case by simp
next
  case (Cons kv q)
  obtain key val where kv: "kv = (key, val)" by (cases kv)
  from Cons.prems(1) obtain x where b: "build_data E q (AList.update key x d) = Some (Inr d')"
    and x: "key = ''page'' \<or> key = ''limit'' \<longrightarrow> (\<exists>n. x = JInt n)"
      "key = ''mileage'' \<longrightarrow> (\<exists>y. x = JFloat y)"
    unfolding kv by (auto split: list.splits sum.splits if_splits)
  have "\<forall>kv\<in>set (AList.update key x d).
          (fst kv = ''page'' \<or> fst kv = ''limit'' \<longrightarrow> (\<exists>n. snd kv = JInt n))
        \<and> (fst kv = ''mileage'' \<longrightarrow> (\<exists>x. snd kv = JFloat x))"
  proof
    fix e assume "e \<in> set (AList.update key x d)"
    with set_update_subset [of key x d] have "e = (key, x) \<or> e \<in> set d" by auto
    then show "(fst e = ''page'' \<or> fst e = ''limit'' \<longrightarrow> (\<exists>n. snd e = JInt n))
        \<and> (fst e = ''mileage'' \<longrightarrow> (\<exists>x. snd e = JFloat x))"
    proof
      assume "e = (key, x)"
      with x show ?thesis by simp
    next
      assume "e \<in> set d"
      with Cons.prems(2) show ?thesis by (rule bspec)
    qed
  qed
  from Cons.IH [OF b this] show ?case .
qed

lemma service_find_error:
  assumes "resolved_filter E q = Some (Inl e)"
  shows "MongoTrackingService_FindTrackingData E
           (MongoTackingRepository_FindTrackingData E collection_Find) q db = Some (Inl e, db)"
proof (cases "decode_query E q")
  case None
  with assms show ?thesis by (simp add: resolved_filter_def)
next
  case (Some r)
  show ?thesis
  proof (cases r)
    case (Inl e')
    with Some assms show ?thesis
      by (simp add: resolved_filter_def MongoTrackingService_FindTrackingData_def)
  next
    case (Inr flt)
    with Some assms have "Build E flt = Inl e" by (simp add: resolved_filter_def)
    then have "find_query E (Some flt) = Inl e" by (simp add: find_query_def)
    with Some Inr show ?thesis
      by (simp add: MongoTrackingService_FindTrackingData_def
          MongoTackingRepository_FindTrackingData_def)
  qed
qed

lemma decode_query_Inr:
  assumes "decode_query E q = Some (Inr f)"
  obtains d where "build_data E q [] = Some (Inr d)"
    and "decode_fields (sort_key fst d) zero_filter = Inr f"
  using assms
  by (auto simp: decode_query_def json_Marshal_def json_Unmarshal_def
      split: option.splits sum.splits if_splits)

lemma resolved_filter_Inr:
  assumes "resolved_filter E q = Some (Inr f)"
  obtains f0 where "decode_query E q = Some (Inr f0)" and "Build E f0 = Inr f"
  using assms by (auto simp: resolved_filter_def split: option.splits sum.splits)

lemma decode_query_string_field:
  assumes keeps: "\<And>kv f f'. decode_field kv f = Inr f' \<Longrightarrow> map ascii_lower (fst kv) \<noteq> t \<Longrightarrow> g f' = g f"
    and sets: "\<And>f f'. decode_field (t, JString v) f = Inr f' \<Longrightarrow> g f' = v"
    and t: "t \<noteq> ''page''" "t \<noteq> ''limit''" "t \<noteq> ''mileage''"
    and keys: "distinct (map fst q)" and mem: "(t, v # vs) \<in> set q"
    and dec: "decode_query E q = Some (Inr f)"
  shows "g f = v"
proof -
  from dec obtain d where d: "build_data E q [] = Some (Inr d)"
    and fs: "decode_fields (sort_key fst d) zero_filter = Inr f"
    by (rule decode_query_Inr)
  have "map_of d t = Some (JString v)"
    by (rule build_data_string [OF d keys mem t])
  then have m: "(t, JString v) \<in> set (sort_key fst d)"
    by (simp add: map_of_SomeD)
  have "distinct (map fst d)"
    using build_data_distinct [OF d] by simp
  then have dst: "distinct (map fst (sort_key fst d))"
    by (simp add: distinct_map)
  have srt: "sorted (map fst (sort_key fst d))" by simp
  show ?thesis
    by (rule decode_fields_exact_key_last [of t g, OF keeps sets srt dst m fs])
qed

lemma Build_fails:
  assumes "VehicleID f \<noteq> [] \<and> (\<exists>e. ObjectIDFromHex (VehicleID f) = Inl e)
         \<or> Status f \<noteq> [] \<and> VehicleStatus_Valid E (Status f) \<noteq> None
         \<or> FuelCondition f \<noteq> [] \<and> FuelCondition_Valid E (FuelCondition f) \<noteq> None"
  shows "\<exists>e. Build E f = Inl e"
  using assms by (auto simp: Build_cases)

lemma decode_query_no_panic:
  "\<forall>kv\<in>set q. snd kv \<noteq> [] \<Longrightarrow> decode_query E q \<noteq> None"
  using build_data_no_panic [of q E "[]"]
  by (auto simp: decode_query_def split: option.splits sum.splits)

lemma resolved_filter_fails:
  assumes "decode_query E q \<noteq> None"
    and "\<And>f. decode_query E q = Some (Inr f) \<Longrightarrow> \<exists>e. Build E f = Inl e"
  shows "\<exists>e. resolved_filter E q = Some (Inl e)"
proof (cases "decode_query E q")
  case None
  with assms(1) show ?thesis by simp
next
  case (Some r)
  then show ?thesis
    using assms(2) by (cases r) (auto simp: resolved_filter_def)
qed

lemma decode_field_sets_string:
  "decode_field (''vehicle_id'', JString v) f = Inr f' \<Longrightarrow> VehicleID f' = v"
  "decode_field (''status'', JString v) f = Inr f' \<Longrightarrow> Status f' = v"
  "decode_field (''fuel_condition'', JString v) f = Inr f' \<Longrightarrow> FuelCondition f' = v"
  by (auto simp: decode_field_def Let_def ascii_lower_def)

lemma fails_number:
  assumes vals: "\<forall>kv\<in>set q. snd kv \<noteq> []"
    and mem: "(k, v # vs) \<in> set q"
    and bad: "(k = ''page'' \<or> k = ''limit'') \<and> (\<exists>e. Atoi v = Inl e)
         \<or> k = ''mileage'' \<and> (\<exists>e. ParseFloat E v = Inl e)"
  shows "\<exists>e. resolved_filter E q = Some (Inl e)"
proof -
  from build_data_convert_error [OF vals mem bad, of "[]"]
  obtain e where "build_data E q [] = Some (Inl e)" by blast
  then show ?thesis by (simp add: resolved_filter_def decode_query_def)
qed

lemma fails_vehicle_id:
  assumes vals: "\<forall>kv\<in>set q. snd kv \<noteq> []" and keys: "distinct (map fst q)"
    and mem: "(''vehicle_id'', v # vs) \<in> set q" and ne: "v \<noteq> []"
    and bad: "ObjectIDFromHex v = Inl e"
  shows "\<exists>e. resolved_filter E q = Some (Inl e)"
proof (rule resolved_filter_fails [OF decode_query_no_panic [OF vals]])
  fix f assume dec: "decode_query E q = Some (Inr f)"
  have "VehicleID f = v"
  proof (rule decode_query_string_field [where t = "''vehicle_id''" and g = VehicleID,
        OF _ _ _ _ _ keys mem dec])
    show "\<And>kv f f'. decode_field kv f = Inr f' \<Longrightarrow> map ascii_lower (fst kv) \<noteq> ''vehicle_id''
            \<Longrightarrow> VehicleID f' = VehicleID f"
      by (rule decode_field_keeps(5))
    show "\<And>f f'. decode_field (''vehicle_id'', JString v) f = Inr f' \<Longrightarrow> VehicleID f' = v"
      by (rule decode_field_sets_string(1))
  qed simp_all
  with ne bad show "\<exists>e. Build E f = Inl e" by (intro Build_fails) simp
qed

lemma fails_status:
  assumes vals: "\<forall>kv\<in>set q. snd kv \<noteq> []" and keys: "distinct (map fst q)"
    and mem: "(''status'', v # vs) \<in> set q" and ne: "v \<noteq> []"
    and bad: "VehicleStatus_Valid E v \<noteq> None"
  shows "\<exists>e. resolved_filter E q = Some (Inl e)"
proof (rule resolved_filter_fails [OF decode_query_no_panic [OF vals]])
  fix f assume dec: "decode_query E q = Some (Inr f)"
  have "Status f = v"
  proof (rule decode_query_string_field [where t = "''status''" and g = Status,
        OF _ _ _ _ _ keys mem dec])
    show "\<And>kv f f'. decode_field kv f = Inr f' \<Longrightarrow> map ascii_lower (fst kv) \<noteq> ''status''
            \<Longrightarrow> Status f' = Status f"
      by (rule decode_field_keeps(6))
    show "\<And>f f'. decode_field (''status'', JString v) f = Inr f' \<Longrightarrow> Status f' = v"
      by (rule decode_field_sets_string(2))
  qed simp_all
  with ne bad show "\<exists>e. Build E f = Inl e" by (intro Build_fails) simp
qed

lemma fails_fuel_condition:
  assumes vals: "\<forall>kv\<in>set q. snd kv \<noteq> []" and keys: "distinct (map fst q)"
    and mem: "(''fuel_condition'', v # vs) \<in> set q" and ne: "v \<noteq> []"
    and bad: "FuelCondition_Valid E v \<noteq> None"
  shows "\<exists>e. resolved_filter E q = Some (Inl e)"
proof (rule resolved_filter_fails [OF decode_query_no_panic [OF vals]])
  fix f assume dec: "decode_query E q = Some (Inr f)"
  have "FuelCondition f = v"
  proof (rule decode_query_string_field [where t = "''fuel_condition''" and g = FuelCondition,
        OF _ _ _ _ _ keys mem dec])
    show "\<And>kv f f'. decode_field kv f = Inr f' \<Longrightarrow> map ascii_lower (fst kv) \<noteq> ''fuel_condition''
            \<Longrightarrow> FuelCondition f' = FuelCondition f"
      by (rule decode_field_keeps(7))
    show "\<And>f f'. decode_field (''fuel_condition'', JString v) f = Inr f' \<Longrightarrow> FuelCondition f' = v"
      by (rule decode_field_sets_string(3))
  qed simp_all
  with ne bad show "\<exists>e. Build E f = Inl e" by (intro Build_fails) simp
qed

text \<open>
  Claim C5, for values that are not empty. Let every key of the query have at least one value, as the
  parser of net/url gives them. When the first value of \<open>page\<close> or \<open>limit\<close> is not
  accepted by \<open>strconv.Atoi\<close>, or that of \<open>mileage\<close> not by \<open>strconv.ParseFloat\<close>, or
  that of \<open>vehicle_id\<close> is not empty and not a hexadecimal identifier, or that of
  \<open>status\<close> or \<open>fuel_condition\<close> is not empty and rejected by \<open>Valid\<close>, then the
  filter build fails with an error, and the service returns this error with the
  database as it was, for every driver: the collection is not queried.
\<close>

theorem filter_build_failures:
  assumes vals: "\<forall>kv\<in>set q. snd kv \<noteq> []" and keys: "distinct (map fst q)"
    and bad: "(\<exists>v vs. ((''page'', v # vs) \<in> set q \<or> (''limit'', v # vs) \<in> set q)
                  \<and> (\<exists>e. Atoi v = Inl e))
            \<or> (\<exists>v vs. (''mileage'', v # vs) \<in> set q \<and> (\<exists>e. ParseFloat E v = Inl e))
            \<or> (\<exists>v vs. (''vehicle_id'', v # vs) \<in> set q \<and> v \<noteq> []
                  \<and> (\<exists>e. ObjectIDFromHex v = Inl e))
            \<or> (\<exists>v vs. (''status'', v # vs) \<in> set q \<and> v \<noteq> []
                  \<and> VehicleStatus_Valid E v \<noteq> None)
            \<or> (\<exists>v vs. (''fuel_condition'', v # vs) \<in> set q \<and> v \<noteq> []
                  \<and> FuelCondition_Valid E v \<noteq> None)"
  shows "\<exists>e. resolved_filter E q = Some (Inl e)
           \<and> MongoTrackingService_FindTrackingData E
                (MongoTackingRepository_FindTrackingData E collection_Find) q db = Some (Inl e, db)"
proof -
  have "\<exists>e. resolved_filter E q = Some (Inl e)"
    using bad
  proof (elim disjE exE conjE)
    fix v vs e assume a: "(''page'', v # vs) \<in> set q" "Atoi v = Inl e"
    show ?thesis by (rule fails_number [OF vals a(1)]) (simp add: a(2))
  next
    fix v vs e assume a: "(''limit'', v # vs) \<in> set q" "Atoi v = Inl e"
    show ?thesis by (rule fails_number [OF vals a(1)]) (simp add: a(2))
  next
    fix v vs e assume a: "(''mileage'', v # vs) \<in> set q" "ParseFloat E v = Inl e"
    show ?thesis by (rule fails_number [OF vals a(1)]) (simp add: a(2))
  next
    fix v vs e assume "(''vehicle_id'', v # vs) \<in> set q" "v \<noteq> []" "ObjectIDFromHex v = Inl e"
    then show ?thesis by (rule fails_vehicle_id [OF vals keys])
  next
    fix v vs assume "(''status'', v # vs) \<in> set q" "v \<noteq> []" "VehicleStatus_Valid E v \<noteq> None"
    then show ?thesis by (rule fails_status [OF vals keys])
  next
    fix v vs assume "(''fuel_condition'', v # vs) \<in> set q" "v \<noteq> []"
      "FuelCondition_Valid E v \<noteq> None"
    then show ?thesis by (rule fails_fuel_condition [OF vals keys])
  qed
  then obtain e where e: "resolved_filter E q = Some (Inl e)" ..
  show ?thesis
    by (rule exI [of _ e], rule conjI, rule e, rule service_find_error [OF e])
qed

text \<open>
  Claim C5, for empty values. The empty text is not a hexadecimal identifier, not a
  status and not a fuel condition, and yet each of the queries \<open>vehicle_id=\<close>,
  \<open>status=\<close> and \<open>fuel_condition=\<close> builds and reads the collection.
\<close>

theorem empty_values_build:
  "ObjectIDFromHex [] = Inl ErrInvalidHex
 \<and> resolved_filter spec_extern [(''vehicle_id'', [[]])] =
     Some (Inr (zero_filter\<lparr>Page := 1, PageSize := 10, SortField := ''created_at'',
                              SortOrder := ''asc''\<rparr>))
 \<and> MongoTrackingService_FindTrackingData spec_extern
       (MongoTackingRepository_FindTrackingData spec_extern sample_collection_Find)
       [(''vehicle_id'', [[]])] [7] = Some (Inr [7], [7])
 \<and> VehicleStatus_Valid spec_extern [] = Some (ErrExternal [])
 \<and> resolved_filter spec_extern [(''status'', [[]])] =
     Some (Inr (zero_filter\<lparr>Page := 1, PageSize := 10, SortField := ''created_at'',
                              SortOrder := ''asc''\<rparr>))
 \<and> MongoTrackingService_FindTrackingData spec_extern
       (MongoTackingRepository_FindTrackingData spec_extern sample_collection_Find)
       [(''status'', [[]])] [7] = Some (Inr [7], [7])
 \<and> FuelCondition_Valid spec_extern [] = Some (ErrExternal [])
 \<and> resolved_filter spec_extern [(''fuel_condition'', [[]])] =
     Some (Inr (zero_filter\<lparr>Page := 1, PageSize := 10, SortField := ''created_at'',
                              SortOrder := ''asc''\<rparr>))
 \<and> MongoTrackingService_FindTrackingData spec_extern
       (MongoTackingRepository_FindTrackingData spec_extern sample_collection_Find)
       [(''fuel_condition'', [[]])] [7] = Some (Inr [7], [7])"
  by (simp add: ObjectIDFromHex_def MongoTrackingService_FindTrackingData_def
      MongoTackingRepository_FindTrackingData_def find_query_def sample_collection_Find_def
      spec_extern_def enum_Valid_def VehicleStatuses_def FuelConditions_def float64_is_zero_def
      query_eval)

theorem filter_build_failures_witness:
  "(\<exists>e. resolved_filter spec_extern [(''page'', [''abc''])] = Some (Inl e)
      \<and> MongoTrackingService_FindTrackingData spec_extern
           (MongoTackingRepository_FindTrackingData spec_extern sample_collection_Find)
           [(''page'', [''abc''])] [7] = Some (Inl e, [7]))
 \<and> (\<exists>e. resolved_filter spec_extern [(''mileage'', [''12,5''])] = Some (Inl e)
      \<and> MongoTrackingService_FindTrackingData spec_extern
           (MongoTackingRepository_FindTrackingData spec_extern sample_collection_Find)
           [(''mileage'', [''12,5''])] [7] = Some (Inl e, [7]))
 \<and> (\<exists>e. resolved_filter spec_extern [(''vehicle_id'', [''not-a-valid-id''])] = Some (Inl e)
      \<and> MongoTrackingService_FindTrackingData spec_extern
           (MongoTackingRepository_FindTrackingData spec_extern sample_collection_Find)
           [(''vehicle_id'', [''not-a-valid-id''])] [7] = Some (Inl e, [7]))
 \<and> (\<exists>e. resolved_filter spec_extern [(''limit'', [''5'']), (''status'', [''bogus''])] = Some (Inl e)
      \<and> MongoTrackingService_FindTrackingData spec_extern
           (MongoTackingRepository_FindTrackingData spec_extern sample_collection_Find)
           [(''limit'', [''5'']), (''status'', [''bogus''])] [7] = Some (Inl e, [7]))
 \<and> (\<exists>e. resolved_filter spec_extern [(''fuel_condition'', [''overflowing''])] = Some (Inl e)
      \<and> MongoTrackingService_FindTrackingData spec_extern
           (MongoTackingRepository_FindTrackingData spec_extern sample_collection_Find)
           [(''fuel_condition'', [''overflowing''])] [7] = Some (Inl e, [7]))"
proof (intro conjI)
  have "Atoi ''abc'' = Inl (ErrSyntax ''Atoi'' ''abc'')"
    by (simp add: Atoi_def is_digit_def)
  then show "\<exists>e. resolved_filter spec_extern [(''page'', [''abc''])] = Some (Inl e)
      \<and> MongoTrackingService_FindTrackingData spec_extern
           (MongoTackingRepository_FindTrackingData spec_extern sample_collection_Find)
           [(''page'', [''abc''])] [7] = Some (Inl e, [7])"
    by (intro filter_build_failures) simp_all
  have "ParseFloat spec_extern ''12,5'' = Inl (ErrSyntax ''ParseFloat'' ''12,5'')"
    by (simp add: spec_extern_def ParseFloat_excerpt_def)
  then show "\<exists>e. resolved_filter spec_extern [(''mileage'', [''12,5''])] = Some (Inl e)
      \<and> MongoTrackingService_FindTrackingData spec_extern
           (MongoTackingRepository_FindTrackingData spec_extern sample_collection_Find)
           [(''mileage'', [''12,5''])] [7] = Some (Inl e, [7])"
    by (intro filter_build_failures) simp_all
  have "ObjectIDFromHex ''not-a-valid-id'' = Inl ErrInvalidHex"
    by (simp add: ObjectIDFromHex_def)
  then show "\<exists>e. resolved_filter spec_extern [(''vehicle_id'', [''not-a-valid-id''])] = Some (Inl e)
      \<and> MongoTrackingService_FindTrackingData spec_extern
           (MongoTackingRepository_FindTrackingData spec_extern sample_collection_Find)
           [(''vehicle_id'', [''not-a-valid-id''])] [7] = Some (Inl e, [7])"
    by (intro filter_build_failures) simp_all
  have "VehicleStatus_Valid spec_extern ''bogus'' = Some (ErrExternal ''bogus'')"
    by (simp add: spec_extern_def enum_Valid_def VehicleStatuses_def)
  then show "\<exists>e. resolved_filter spec_extern [(''limit'', [''5'']), (''status'', [''bogus''])] = Some (Inl e)
      \<and> MongoTrackingService_FindTrackingData spec_extern
           (MongoTackingRepository_FindTrackingData spec_extern sample_collection_Find)
           [(''limit'', [''5'']), (''status'', [''bogus''])] [7] = Some (Inl e, [7])"
    by (intro filter_build_failures) simp_all
  have "FuelCondition_Valid spec_extern ''overflowing'' = Some (ErrExternal ''overflowing'')"
    by (simp add: spec_extern_def enum_Valid_def FuelConditions_def)
  then show "\<exists>e. resolved_filter spec_extern [(''fuel_condition'', [''overflowing''])] = Some (Inl e)
      \<and> MongoTrackingService_FindTrackingData spec_extern
           (MongoTackingRepository_FindTrackingData spec_extern sample_collection_Find)
           [(''fuel_condition'', [''overflowing''])] [7] = Some (Inl e, [7])"
    by (intro filter_build_failures) simp_all
qed

section \<open>Defaults and clamps of the filter\<close>



lemma resolved_defaults:
  assumes "resolved_filter E q = Some (Inr f)"
  obtains f0 where "decode_query E q = Some (Inr f0)"
    and "Page f = (if Page f0 = 0 then 1 else Page f0)"
    and "PageSize f = (if PageSize f0 = 0 then 10 else min (PageSize f0) 100)"
    and "SortField f = (if SortField f0 = [] then ''created_at'' else SortField f0)"
    and "SortOrder f = (if SortOrder f0 = [] then ''asc'' else SortOrder f0)"
proof -
  from assms obtain f0 where dec: "decode_query E q = Some (Inr f0)" and b: "Build E f0 = Inr f"
    by (rule resolved_filter_Inr)
  note f = Build_Inr(1) [OF b]
  show thesis
    by (rule that [OF dec]) (simp_all add: f Build_defaults_simps)
qed

text \<open>Of the bounds of a resolved filter these hold for every query: the page is not
  0, and the page size is not 0 and at most 100.\<close>

lemma resolved_filter_bounds:
  assumes "resolved_filter E q = Some (Inr f)"
  shows "Page f \<noteq> 0" and "PageSize f \<noteq> 0" and "PageSize f \<le> 100"
proof -
  from assms obtain f0 :: TrackingFilter where
    p: "Page f = (if Page f0 = 0 then 1 else Page f0)"
    and s: "PageSize f = (if PageSize f0 = 0 then 10 else min (PageSize f0) 100)"
    by (rule resolved_defaults) blast
  show "Page f \<noteq> 0" by (simp add: p)
  show "PageSize f \<noteq> 0" by (simp add: s min_def)
  show "PageSize f \<le> 100" by (simp add: s)
qed



end
